theory Spec2Isabelle
  imports Complex_Main "HOL-Library.Word"
begin

section \<open>Squarify: the pixel transformations of \<^verbatim>\<open>app.py\<close>\<close>

text \<open>
  The development embeds the two image functions of \<^verbatim>\<open>app.py\<close>,
  \<^verbatim>\<open>squarify_image\<close> (lines 79-97) and \<^verbatim>\<open>add_transparency\<close> (lines 100-141),
  together with the parts of Pillow, NumPy and Panel they call.  Both functions read and
  write module-level Panel widgets; the widgets are an explicit state record that every
  function takes and returns.  An exception is a value \<open>Inl e\<close>; the state returned with
  it is the state at the moment of the raise, since the assignments made before a raise
  are not undone.
\<close>

subsection \<open>Images\<close>

text \<open>
  A Pillow image has a mode, a size \<open>(width, height)\<close>, one value per band and pixel,
  for mode \<^verbatim>\<open>P\<close> a palette, and possibly an entry \<^verbatim>\<open>info["transparency"]\<close>
  that a file format without alpha channel uses to mark transparent pixels (the
  \<^verbatim>\<open>tRNS\<close> chunk of PNG, the transparent index of GIF).  Six modes are modelled,
  each with the data it carries: \<^verbatim>\<open>1\<close> (black and white, stored as 0 or 255),
  \<^verbatim>\<open>L\<close> (grey), \<^verbatim>\<open>LA\<close> (grey with alpha), \<^verbatim>\<open>P\<close> (palette
  indices), \<^verbatim>\<open>RGB\<close> and \<^verbatim>\<open>RGBA\<close>.  The transparency entry is a grey
  level for \<^verbatim>\<open>1\<close> and \<^verbatim>\<open>L\<close>, a colour for \<^verbatim>\<open>RGB\<close>, and for
  \<^verbatim>\<open>P\<close> either one palette index or a table of alpha values for the first
  palette entries.  The remaining modes of the library (\<^verbatim>\<open>PA\<close>,
  \<^verbatim>\<open>CMYK\<close>, \<^verbatim>\<open>YCbCr\<close>, \<^verbatim>\<open>LAB\<close>, \<^verbatim>\<open>HSV\<close>,
  \<^verbatim>\<open>I\<close>, \<^verbatim>\<open>F\<close>) are not modelled.  Pixel data is a list of rows, top row
  first.
\<close>

type_synonym ubyte = "8 word"
type_synonym rgb = "ubyte \<times> ubyte \<times> ubyte"
type_synonym rgba = "ubyte \<times> ubyte \<times> ubyte \<times> ubyte"

datatype palette_transparency = Index ubyte | Alphas "ubyte list"

datatype pixels =
    Bilevel "bool list list" "ubyte option"
  | L "ubyte list list" "ubyte option"
  | LA "(ubyte \<times> ubyte) list list"
  | P "ubyte list list" "rgb list" "palette_transparency option"
  | RGB "rgb list list" "rgb option"
  | RGBA "rgba list list"

record image =
  width :: nat
  height :: nat
  pixels :: pixels

datatype py_error = ValueError | IndexError

text \<open>A grid of rows has the shape \<open>w \<times> h\<close>.\<close>

definition grid_ok :: "nat \<Rightarrow> nat \<Rightarrow> 'a list list \<Rightarrow> bool" where
  "grid_ok w h rows \<longleftrightarrow> length rows = h \<and> list_all (\<lambda>row. length row = w) rows"

text \<open>
  A valid image has pixel data of its size; in mode \<^verbatim>\<open>P\<close> every index has an
  entry in the palette.
\<close>

definition valid_image :: "image \<Rightarrow> bool" where
  "valid_image im =
     (case pixels im of
        Bilevel rows _ \<Rightarrow> grid_ok (width im) (height im) rows
      | L rows _ \<Rightarrow> grid_ok (width im) (height im) rows
      | LA rows \<Rightarrow> grid_ok (width im) (height im) rows
      | P rows palette _ \<Rightarrow>
          grid_ok (width im) (height im) rows \<and>
          list_all (list_all (\<lambda>i. unat i < length palette)) rows
      | RGB rows _ \<Rightarrow> grid_ok (width im) (height im) rows
      | RGBA rows \<Rightarrow> grid_ok (width im) (height im) rows)"

text \<open>
  \<^verbatim>\<open>convert("RGBA")\<close>.  A grey value becomes the colour with three equal bytes,
  a palette index the colour of its palette entry.  Without a transparency entry a
  mode without alpha channel gets alpha 255 on every pixel.  With one, the conversion
  promotes it to the alpha channel: in the modes \<^verbatim>\<open>1\<close>, \<^verbatim>\<open>L\<close> and
  \<^verbatim>\<open>RGB\<close> the pixels of the transparent grey level or colour get alpha 0 and the
  others 255; in mode \<^verbatim>\<open>P\<close> the pixels of the transparent index get alpha 0, or,
  with a table, a pixel of index \<open>i\<close> gets the \<open>i\<close>-th alpha of the table (255 beyond
  its end).  \<^verbatim>\<open>LA\<close> keeps its alpha and \<^verbatim>\<open>RGBA\<close> is copied.
\<close>

definition keyed_alpha :: "'a option \<Rightarrow> 'a \<Rightarrow> ubyte" where
  "keyed_alpha transparency v = (if transparency = Some v then 0 else 255)"

definition palette_alpha :: "palette_transparency option \<Rightarrow> ubyte \<Rightarrow> ubyte" where
  "palette_alpha transparency i =
     (case transparency of
        None \<Rightarrow> 255
      | Some (Index t) \<Rightarrow> (if i = t then 0 else 255)
      | Some (Alphas table) \<Rightarrow> (if unat i < length table then table ! unat i else 255))"

text \<open>
  The colour of a palette index.  An index beyond the palette does not occur in a valid
  image; the model answers black for it.
\<close>

definition palette_colour :: "rgb list \<Rightarrow> ubyte \<Rightarrow> rgb" where
  "palette_colour palette i = (if unat i < length palette then palette ! unat i else (0, 0, 0))"

definition to_rgba :: "pixels \<Rightarrow> rgba list list" where
  "to_rgba p =
     (case p of
        Bilevel rows t \<Rightarrow>
          map (map (\<lambda>w. let v = (if w then 255 else 0) in (v, v, v, keyed_alpha t v))) rows
      | L rows t \<Rightarrow> map (map (\<lambda>v. (v, v, v, keyed_alpha t v))) rows
      | LA rows \<Rightarrow> map (map (\<lambda>(v, a). (v, v, v, a))) rows
      | P rows palette t \<Rightarrow>
          map (map (\<lambda>i. case palette_colour palette i of
                            (r, g, b) \<Rightarrow> (r, g, b, palette_alpha t i))) rows
      | RGB rows t \<Rightarrow> map (map (\<lambda>(r, g, b). (r, g, b, keyed_alpha t (r, g, b)))) rows
      | RGBA rows \<Rightarrow> rows)"

definition convert_RGBA :: "image \<Rightarrow> image" where
  "convert_RGBA im = im\<lparr>pixels := RGBA (to_rgba (pixels im))\<rparr>"

text \<open>The pixel at column \<open>x\<close> of row \<open>y\<close>, read as \<^verbatim>\<open>RGBA\<close>.\<close>

definition getpixel :: "image \<Rightarrow> nat \<Rightarrow> nat \<Rightarrow> rgba" where
  "getpixel im x y = to_rgba (pixels im) ! y ! x"

text \<open>\<^verbatim>\<open>Image.new("RGBA", size, color)\<close>: every pixel is \<open>color\<close>.\<close>

definition Image_new :: "nat \<times> nat \<Rightarrow> rgba \<Rightarrow> image" where
  "Image_new sz color =
     \<lparr>width = fst sz, height = snd sz,
      pixels = RGBA (replicate (snd sz) (replicate (fst sz) color))\<rparr>"

text \<open>
  \<^verbatim>\<open>self.paste(im, (x0, y0))\<close> without a mask: the region of \<open>self\<close> covered by
  \<open>im\<close> is overwritten with the pixels of \<open>im\<close>, converted to the mode of \<open>self\<close>;
  all bands are copied and nothing is blended.  The destination is an \<^verbatim>\<open>RGBA\<close>
  image, as the canvas of line 95 is; no other destination mode occurs in the program,
  and none is modelled.
\<close>

definition paste :: "image \<Rightarrow> image \<Rightarrow> nat \<times> nat \<Rightarrow> image" where
  "paste self im box =
     (let x0 = fst box; y0 = snd box;
          src = to_rgba (pixels im); dst = to_rgba (pixels self)
      in self\<lparr>pixels := RGBA
           (map (\<lambda>y. map (\<lambda>x.
                  if x0 \<le> x \<and> x < x0 + width im \<and> y0 \<le> y \<and> y < y0 + height im
                  then src ! (y - y0) ! (x - x0)
                  else dst ! y ! x) [0..<width self]) [0..<height self])\<rparr>)"

text \<open>
  \<^verbatim>\<open>self.resize(size)\<close>.  Pillow returns a copy when \<open>size\<close> is the size the image
  already has, raises \<^verbatim>\<open>ValueError\<close> ("height and width must be > 0") for a side
  below 1, and resamples otherwise.  The resampling filter is a parameter: a function
  giving the output pixel at \<open>(x, y)\<close> from the source rows and the target size.  The
  image resized is \<^verbatim>\<open>RGBA\<close>, as the canvas is, and so is the result.
\<close>

type_synonym resample = "rgba list list \<Rightarrow> nat \<times> nat \<Rightarrow> nat \<Rightarrow> nat \<Rightarrow> rgba"

definition resize :: "resample \<Rightarrow> image \<Rightarrow> int \<times> int \<Rightarrow> py_error + image" where
  "resize filt self sz =
     (let w = fst sz; h = snd sz
      in if int (width self) = w \<and> int (height self) = h then Inr self
         else if w < 1 \<or> h < 1 then Inl ValueError
         else Inr \<lparr>width = nat w, height = nat h,
                   pixels = RGBA
                     (map (\<lambda>y. map (\<lambda>x. filt (to_rgba (pixels self)) (nat w, nat h) x y)
                        [0..<nat w]) [0..<nat h])\<rparr>)"

text \<open>Nearest-neighbour sampling, one admissible filter, used for concrete runs.\<close>

definition nearest :: resample where
  "nearest rows sz x y =
     rows ! (y * length rows div snd sz) ! (x * length (rows ! 0) div fst sz)"

subsection \<open>Double-precision arithmetic\<close>

text \<open>
  NumPy computes in IEEE 754 binary64.  A double is modelled by the real number it
  denotes; every arithmetic operation rounds its exact result to the nearest double,
  ties to even (\<open>fl\<close>).  The scale of the 53-bit significand comes from the binary
  exponent of the argument, bounded below by the subnormal scale \<open>2\<^sup>-\<^sup>1\<^sup>0\<^sup>7\<^sup>4\<close>.  Overflow
  to infinity is not modelled; no value here exceeds 255.
\<close>

type_synonym float64 = real

fun bit_length :: "nat \<Rightarrow> nat" where
  "bit_length n = (if n = 0 then 0 else Suc (bit_length (n div 2)))"

definition pow2 :: "int \<Rightarrow> real" where
  "pow2 e = (if 0 \<le> e then 2 ^ nat e else 1 / 2 ^ nat (- e))"

text \<open>For \<open>x > 0\<close>, the integer \<open>e\<close> with \<open>2\<^sup>e \<le> x < 2\<^sup>e\<^sup>+\<^sup>1\<close>.\<close>

definition floor_log2 :: "real \<Rightarrow> int" where
  "floor_log2 x =
     (if 1 \<le> x then int (bit_length (nat \<lfloor>x\<rfloor>)) - 1
      else - int (bit_length (nat (\<lceil>1 / x\<rceil> - 1))))"

definition round_half_even :: "real \<Rightarrow> int" where
  "round_half_even x =
     (let f = \<lfloor>x\<rfloor>; d = x - of_int f
      in if d < 1 / 2 then f
         else if 1 / 2 < d then f + 1
         else if even f then f else f + 1)"

definition fl :: "real \<Rightarrow> float64" where
  "fl x =
     (if x = 0 then 0
      else let s = max (floor_log2 \<bar>x\<bar> - 52) (- 1074)
           in sgn x * of_int (round_half_even (\<bar>x\<bar> / pow2 s)) * pow2 s)"

text \<open>\<^verbatim>\<open>np.array(..., dtype=np.ubyte) / 255.0\<close> on one channel (line 109).\<close>

definition normalized :: "ubyte \<Rightarrow> float64" where
  "normalized k = fl (real (unat k) / 255)"

text \<open>\<^verbatim>\<open>.astype(int)\<close>: conversion of a double to an integer drops the fraction.\<close>

definition astype_int :: "float64 \<Rightarrow> int" where
  "astype_int x = (if 0 \<le> x then \<lfloor>x\<rfloor> else \<lceil>x\<rceil>)"

text \<open>\<^verbatim>\<open>np.ubyte((x * 255).astype(int))\<close> on one channel (line 141).\<close>

definition to_ubyte :: "float64 \<Rightarrow> ubyte" where
  "to_ubyte x = word_of_int (astype_int (fl (x * 255)))"

text \<open>Rounding to the nearest integer, for comparison with \<open>astype_int\<close>.\<close>

definition nearest_int :: "float64 \<Rightarrow> int" where
  "nearest_int x = round_half_even x"

text \<open>
  The byte \<open>k\<close> survives the way to a double and back (lines 109 and 112/141): the
  rounded product is the integer \<open>k\<close> itself.
\<close>

definition exact_byte :: "ubyte \<Rightarrow> bool" where
  "exact_byte k \<longleftrightarrow> fl (normalized k * 255) = real (unat k)"

subsection \<open>Strings\<close>

fun str_nat :: "nat \<Rightarrow> string" where
  "str_nat n =
     (if n < 10 then [''0123456789'' ! n]
      else str_nat (n div 10) @ [''0123456789'' ! (n mod 10)])"

definition str_int :: "int \<Rightarrow> string" where
  "str_int i = (if i < 0 then ''-'' @ str_nat (nat (- i)) else str_nat (nat i))"

definition hex_digit :: "nat \<Rightarrow> char" where
  "hex_digit d = ''0123456789abcdef'' ! d"

fun hex_nat :: "nat \<Rightarrow> string" where
  "hex_nat n =
     (if n < 16 then [hex_digit n]
      else hex_nat (n div 16) @ [hex_digit (n mod 16)])"

text \<open>\<^verbatim>\<open>"{:02x}".format(i)\<close>: lower-case hexadecimal, zero-padded to two characters.\<close>

definition format_02x :: "int \<Rightarrow> string" where
  "format_02x i =
     (let s = (if i < 0 then ''-'' else []) @ hex_nat (nat \<bar>i\<bar>)
      in replicate (2 - length s) CHR ''0'' @ s)"

text \<open>\<^verbatim>\<open>str.lower\<close> and \<^verbatim>\<open>str.upper\<close> on ASCII characters.\<close>

definition lower_char :: "char \<Rightarrow> char" where
  "lower_char c =
     (case map_of (zip ''ABCDEFGHIJKLMNOPQRSTUVWXYZ'' ''abcdefghijklmnopqrstuvwxyz'') c of
        Some d \<Rightarrow> d | None \<Rightarrow> c)"

definition upper_char :: "char \<Rightarrow> char" where
  "upper_char c =
     (case map_of (zip ''abcdefghijklmnopqrstuvwxyz'' ''ABCDEFGHIJKLMNOPQRSTUVWXYZ'') c of
        Some d \<Rightarrow> d | None \<Rightarrow> c)"

definition is_hex :: "char \<Rightarrow> bool" where
  "is_hex c \<longleftrightarrow> c \<in> set ''0123456789abcdef''"

text \<open>The value of a hexadecimal digit: its position among the sixteen digits.\<close>

definition hex_val :: "char \<Rightarrow> nat" where
  "hex_val c = length (takeWhile (\<lambda>d. d \<noteq> c) ''0123456789abcdef'')"

text \<open>\<^verbatim>\<open>int(s, 16)\<close> on a string of hexadecimal digits.\<close>

definition int16 :: "string \<Rightarrow> nat" where
  "int16 s = foldl (\<lambda>acc c. 16 * acc + hex_val c) 0 s"

text \<open>
  \<^verbatim>\<open>ImageColor.getrgb\<close> on the notation \<^verbatim>\<open>#rrggbb\<close>: the string is lower-cased,
  matched against \<^verbatim>\<open>#[a-f0-9]{6}\<close> and cut into three two-digit numbers.  This is the
  notation the colour picker holds (its initial value is \<^verbatim>\<open>#FFFFFF\<close>) and the one
  line 113 writes.  The other notations of the library (colour names, \<^verbatim>\<open>#rgb\<close>,
  \<^verbatim>\<open>rgb(...)\<close>, \<^verbatim>\<open>hsl(...)\<close>) are outside this model, which answers
  \<^verbatim>\<open>ValueError\<close> for every other string.
\<close>

definition getrgb :: "string \<Rightarrow> py_error + nat \<times> nat \<times> nat" where
  "getrgb color0 =
     (let color = map lower_char color0
      in if length color = 7 \<and> color ! 0 = CHR ''#'' \<and> list_all is_hex (drop 1 color)
         then Inr (int16 (take 2 (drop 1 color)),
                   int16 (take 2 (drop 3 color)),
                   int16 (take 2 (drop 5 color)))
         else Inl ValueError)"

subsection \<open>Widgets\<close>

text \<open>
  The module-level widgets the two functions touch.  A checkbox is an object with a
  \<^verbatim>\<open>value\<close>; the spinner holds an integer (initial value 500, step 1); the static
  text holds the string \<^verbatim>\<open>N/A\<close> until \<^verbatim>\<open>squarify_image\<close> stores a number;
  a notification is a message with its duration.
\<close>

record checkbox =
  widget_value :: bool

datatype static_value = Text string | Number int

record widgets =
  input_card_title :: string
  output_card_title :: string
  max_static_text_value :: static_value
  size_spinner_value :: int
  color_picker_value :: string
  detect_checkbox :: checkbox
  match_checkbox :: checkbox
  notifications :: "(string \<times> nat) list"

text \<open>
  The truth value Python gives an object in \<^verbatim>\<open>if obj:\<close>.  A class that defines
  neither \<^verbatim>\<open>__bool__\<close> nor \<^verbatim>\<open>__len__\<close> is always true, and Panel's
  \<^verbatim>\<open>Checkbox\<close> defines neither: the test does not look at \<^verbatim>\<open>value\<close>.
\<close>

definition truth :: "checkbox \<Rightarrow> bool" where
  "truth w = True"

text \<open>The widgets as the module creates them (lines 252-267).\<close>

definition initial_widgets :: widgets where
  "initial_widgets =
     \<lparr>input_card_title = ''Input resolution: N/A'',
      output_card_title = ''Output resolution: N/A'',
      max_static_text_value = Text ''N/A'',
      size_spinner_value = 500,
      color_picker_value = ''#FFFFFF'',
      detect_checkbox = \<lparr>widget_value = False\<rparr>,
      match_checkbox = \<lparr>widget_value = False\<rparr>,
      notifications = []\<rparr>"

subsection \<open>\<^verbatim>\<open>squarify_image\<close>\<close>

text \<open>
  Lines 92-96: the transparent square canvas with the image pasted at its centre.
  \<open>max_size\<close> is at least \<open>width\<close> and \<open>height\<close>, so the differences are not negative
  and Python's \<^verbatim>\<open>//\<close> is \<open>div\<close> on naturals.
\<close>

definition square_canvas :: "image \<Rightarrow> image" where
  "square_canvas im =
     (let max_size = max (width im) (height im);
          center_x = (max_size - width im) div 2;
          center_y = (max_size - height im) div 2;
          square_image = Image_new (max_size, max_size) (255, 255, 255, 0)
      in paste square_image im (center_x, center_y))"

definition squarify_image :: "resample \<Rightarrow> image \<Rightarrow> widgets \<Rightarrow> widgets \<times> (py_error + image)" where
  "squarify_image filt im st =
     (let st1 = st\<lparr>input_card_title :=
                  ''Input resolution: '' @ str_nat (width im) @ ''x'' @ str_nat (height im)\<rparr>;
          max_size = int (max (width im) (height im));
          st2 = st1\<lparr>max_static_text_value := Number max_size\<rparr>;
          desired_size0 = size_spinner_value st2;
          st3 = (if max_size < desired_size0 then st2\<lparr>size_spinner_value := max_size\<rparr> else st2);
          desired_size = (if max_size < desired_size0 then max_size else desired_size0);
          st4 = st3\<lparr>output_card_title :=
                  ''Output resolution: '' @ str_int desired_size @ ''x'' @ str_int desired_size\<rparr>
      in (st4, resize filt (square_canvas im) (desired_size, desired_size)))"

subsection \<open>\<^verbatim>\<open>add_transparency\<close>\<close>

type_synonym float_pixel = "float64 \<times> float64 \<times> float64 \<times> float64"

text \<open>Line 109: the image as an array of shape \<open>(height, width, 4)\<close> of doubles.\<close>

definition np_array_RGBA :: "image \<Rightarrow> float_pixel list list" where
  "np_array_RGBA im =
     map (map (\<lambda>(r, g, b, a). (normalized r, normalized g, normalized b, normalized a)))
       (to_rgba (pixels (convert_RGBA im)))"

text \<open>
  Lines 112-118: the colour at the top left corner is written to the colour picker and
  announced.  Indexing \<^verbatim>\<open>image_array[0, 0]\<close> raises \<^verbatim>\<open>IndexError\<close> on an array
  without rows or without columns.
\<close>

definition detect_color :: "float_pixel list list \<Rightarrow> widgets \<Rightarrow> py_error + widgets" where
  "detect_color image_array st =
     (case image_array of
        [] \<Rightarrow> Inl IndexError
      | row # _ \<Rightarrow>
          (case row of
             [] \<Rightarrow> Inl IndexError
           | (fr, fg, fb, fa) # _ \<Rightarrow>
               let r = astype_int (fl (fr * 255));
                   g = astype_int (fl (fg * 255));
                   b = astype_int (fl (fb * 255));
                   st1 = st\<lparr>color_picker_value :=
                           ''#'' @ format_02x r @ format_02x g @ format_02x b\<rparr>
               in Inr (st1\<lparr>notifications := notifications st1 @
                        [(''Detected background color: '' @
                          map upper_char (color_picker_value st1) @
                          '' ('' @ str_int r @ '', '' @ str_int g @ '', '' @ str_int b @ '')'',
                          2500)]\<rparr>)))"

text \<open>Lines 122-125: the binary mask.\<close>

definition exact_mask :: "float_pixel list list \<Rightarrow> float64 \<times> float64 \<times> float64 \<Rightarrow> float_pixel list list" where
  "exact_mask image_array target_color =
     map (map (\<lambda>(r, g, b, a).
            let mask = ((r, g, b) = target_color)
            in (r, g, b, if mask \<or> a = 0 then 0 else 1))) image_array"

text \<open>Lines 127-139: the fade; each difference is one rounded subtraction.\<close>

definition fade :: "float_pixel list list \<Rightarrow> float64 \<times> float64 \<times> float64 \<Rightarrow> float_pixel list list" where
  "fade image_array target_color =
     (let tr = fst target_color; tg = fst (snd target_color); tb = snd (snd target_color)
      in map (map (\<lambda>(r, g, b, a).
                (r, g, b, max (max \<bar>fl (r - tr)\<bar> \<bar>fl (g - tg)\<bar>) \<bar>fl (b - tb)\<bar>))) image_array)"

text \<open>Line 141: back to bytes, as an \<^verbatim>\<open>RGBA\<close> image of the shape of the array.\<close>

definition fromarray :: "nat \<times> nat \<Rightarrow> float_pixel list list \<Rightarrow> image" where
  "fromarray shape arr =
     \<lparr>width = snd shape, height = fst shape,
      pixels = RGBA (map (map (\<lambda>(r, g, b, a).
                 (to_ubyte r, to_ubyte g, to_ubyte b, to_ubyte a))) arr)\<rparr>"

definition add_transparency :: "image \<Rightarrow> widgets \<Rightarrow> widgets \<times> (py_error + image)" where
  "add_transparency im st =
     (let image_array = np_array_RGBA im
      in case (if widget_value (detect_checkbox st) then detect_color image_array st
               else Inr st) of
           Inl e \<Rightarrow> (st, Inl e)
         | Inr st1 \<Rightarrow>
             (case getrgb (color_picker_value st1) of
                Inl e \<Rightarrow> (st1, Inl e)
              | Inr (cr, cg, cb) \<Rightarrow>
                  let target_color = (fl (real cr / 255), fl (real cg / 255), fl (real cb / 255));
                      image_array_rgba =
                        (if truth (match_checkbox st1)
                         then exact_mask image_array target_color
                         else fade image_array target_color)
                  in (st1, Inr (fromarray (height im, width im) image_array_rgba))))"

subsection \<open>The transformations in the words of the specification\<close>

text \<open>
  Exact mode on one pixel, on bytes: alpha becomes 0 where the colour is the used colour
  or the pixel is already transparent, and 255 elsewhere; the colour channels stay.
\<close>

definition exact_keyed_pixel :: "nat \<times> nat \<times> nat \<Rightarrow> rgba \<Rightarrow> rgba" where
  "exact_keyed_pixel used p =
     (case p of (r, g, b, a) \<Rightarrow>
        (r, g, b, if (unat r, unat g, unat b) = used \<or> a = 0 then 0 else 255))"

subsection \<open>Concrete inputs\<close>

text \<open>A 2\<times>1 image, white then black, both opaque.\<close>

definition white_black :: image where
  "white_black =
     \<lparr>width = 2, height = 1,
      pixels = RGBA [[(255, 255, 255, 255), (0, 0, 0, 255)]]\<rparr>"

text \<open>The same picture without an alpha channel.\<close>

definition white_black_rgb :: image where
  "white_black_rgb =
     \<lparr>width = 2, height = 1, pixels = RGB [[(255, 255, 255), (0, 0, 0)]] None\<rparr>"

text \<open>A 2\<times>1 image whose top left pixel is the half-transparent colour (10, 20, 30).\<close>

definition corner_image :: image where
  "corner_image =
     \<lparr>width = 2, height = 1,
      pixels = RGBA [[(10, 20, 30, 128), (200, 200, 200, 255)]]\<rparr>"

text \<open>A single opaque grey pixel.\<close>

definition grey_pixel :: image where
  "grey_pixel = \<lparr>width = 1, height = 1, pixels = RGBA [[(128, 128, 128, 255)]]\<rparr>"

text \<open>The widgets with one box ticked.\<close>

definition match_checked :: widgets where
  "match_checked = initial_widgets\<lparr>match_checkbox := \<lparr>widget_value = True\<rparr>\<rparr>"

definition detect_checked :: widgets where
  "detect_checked = initial_widgets\<lparr>detect_checkbox := \<lparr>widget_value = True\<rparr>\<rparr>"

text \<open>A single opaque dark pixel.\<close>

definition dark_pixel :: image where
  "dark_pixel = \<lparr>width = 1, height = 1, pixels = RGBA [[(43, 43, 43, 255)]]\<rparr>"

text \<open>A 1\<times>4 image with four different pixels, the second one half transparent.\<close>

definition tall_image :: image where
  "tall_image =
     \<lparr>width = 1, height = 4,
      pixels = RGBA [[(1, 2, 3, 255)], [(4, 5, 6, 128)], [(7, 8, 9, 0)], [(10, 11, 12, 255)]]\<rparr>"

text \<open>A 3\<times>3 image of one opaque colour.\<close>

definition plain_square :: image where
  "plain_square = Image_new (3, 3) (9, 9, 9, 255)"

text \<open>The widgets with the spinner set to 0, and to 1.\<close>

definition zero_size :: widgets where
  "zero_size = initial_widgets\<lparr>size_spinner_value := 0\<rparr>"

definition unit_size :: widgets where
  "unit_size = initial_widgets\<lparr>size_spinner_value := 1\<rparr>"

text \<open>The mode has an alpha band.\<close>

definition has_alpha_channel :: "pixels \<Rightarrow> bool" where
  "has_alpha_channel p = (case p of LA _ \<Rightarrow> True | RGBA _ \<Rightarrow> True | _ \<Rightarrow> False)"

text \<open>The image carries \<^verbatim>\<open>info["transparency"]\<close>.\<close>

definition transparency_info :: "pixels \<Rightarrow> bool" where
  "transparency_info p =
     (case p of
        Bilevel _ (Some _) \<Rightarrow> True
      | L _ (Some _) \<Rightarrow> True
      | P _ _ (Some _) \<Rightarrow> True
      | RGB _ (Some _) \<Rightarrow> True
      | _ \<Rightarrow> False)"

text \<open>
  White then black in mode \<^verbatim>\<open>RGB\<close>, with black as the transparent colour, as a PNG
  with a \<^verbatim>\<open>tRNS\<close> chunk is decoded.
\<close>

definition black_keyed_rgb :: image where
  "black_keyed_rgb =
     \<lparr>width = 2, height = 1,
      pixels = RGB [[(255, 255, 255), (0, 0, 0)]] (Some (0, 0, 0))\<rparr>"



section \<open>Proofs\<close>

subsection \<open>Evaluating the rounding\<close>

declare bit_length.simps [simp del]
declare str_nat.simps [simp del]
declare hex_nat.simps [simp del]

lemma bit_length_0: "bit_length 0 = 0"
  by (simp add: bit_length.simps)

lemma bit_length_1: "bit_length 1 = 1"
  using bit_length.simps[of 1] by (simp add: bit_length_0)

lemma bit_length_Suc_0: "bit_length (Suc 0) = 1"
  using bit_length_1 by simp

lemma bit_length_Bit0: "bit_length (numeral (Num.Bit0 n)) = 1 + bit_length (numeral n)"
  by (subst bit_length.simps) simp

lemma bit_length_Bit1: "bit_length (numeral (Num.Bit1 n)) = 1 + bit_length (numeral n)"
  by (subst bit_length.simps) simp

lemmas fl_eval = fl_def floor_log2_def pow2_def round_half_even_def Let_def
  bit_length_0 bit_length_1 bit_length_Suc_0 bit_length_Bit0 bit_length_Bit1

lemma all_less_16:
  "(\<forall>b<(16::nat). R b) \<longleftrightarrow>
     R 0 \<and> R 1 \<and> R 2 \<and> R 3 \<and> R 4 \<and> R 5 \<and> R 6 \<and> R 7 \<and>
     R 8 \<and> R 9 \<and> R 10 \<and> R 11 \<and> R 12 \<and> R 13 \<and> R 14 \<and> R 15"
proof -
  have "b < 16 \<longleftrightarrow> b \<in> {0, 1, 2, 3, 4, 5, 6, 7, 8, 9, 10, 11, 12, 13, 14, 15}" for b :: nat
    by (simp only: insert_iff empty_iff) arith
  then have "(\<forall>b<(16::nat). R b) \<longleftrightarrow>
      (\<forall>b\<in>{0, 1, 2, 3, 4, 5, 6, 7, 8, 9, 10, 11, 12, 13, 14, 15}. R b)"
    by blast
  then show ?thesis by simp
qed

lemma exact_byte_facts_0:
  "exact_byte 0" "exact_byte 1" "exact_byte 2" "exact_byte 3" "exact_byte 4" "exact_byte 5" "exact_byte 6" "exact_byte 7" "exact_byte 8" "exact_byte 9" "exact_byte 10" "exact_byte 11" "exact_byte 12" "exact_byte 13" "exact_byte 14" "exact_byte 15"
  "exact_byte 16" "exact_byte 17" "exact_byte 18" "exact_byte 19" "exact_byte 20" "exact_byte 21" "exact_byte 22" "exact_byte 23" "exact_byte 24" "exact_byte 25" "exact_byte 26" "exact_byte 27" "exact_byte 28" "exact_byte 29" "exact_byte 30" "exact_byte 31"
  by (simp_all add: exact_byte_def normalized_def fl_eval astype_int_def)

lemma exact_byte_facts_1:
  "exact_byte 32" "exact_byte 33" "exact_byte 34" "exact_byte 35" "exact_byte 36" "exact_byte 37" "exact_byte 38" "exact_byte 39" "exact_byte 40" "exact_byte 41" "exact_byte 42" "exact_byte 43" "exact_byte 44" "exact_byte 45" "exact_byte 46" "exact_byte 47"
  "exact_byte 48" "exact_byte 49" "exact_byte 50" "exact_byte 51" "exact_byte 52" "exact_byte 53" "exact_byte 54" "exact_byte 55" "exact_byte 56" "exact_byte 57" "exact_byte 58" "exact_byte 59" "exact_byte 60" "exact_byte 61" "exact_byte 62" "exact_byte 63"
  by (simp_all add: exact_byte_def normalized_def fl_eval astype_int_def)

lemma exact_byte_facts_2:
  "exact_byte 64" "exact_byte 65" "exact_byte 66" "exact_byte 67" "exact_byte 68" "exact_byte 69" "exact_byte 70" "exact_byte 71" "exact_byte 72" "exact_byte 73" "exact_byte 74" "exact_byte 75" "exact_byte 76" "exact_byte 77" "exact_byte 78" "exact_byte 79"
  "exact_byte 80" "exact_byte 81" "exact_byte 82" "exact_byte 83" "exact_byte 84" "exact_byte 85" "exact_byte 86" "exact_byte 87" "exact_byte 88" "exact_byte 89" "exact_byte 90" "exact_byte 91" "exact_byte 92" "exact_byte 93" "exact_byte 94" "exact_byte 95"
  by (simp_all add: exact_byte_def normalized_def fl_eval astype_int_def)

lemma exact_byte_facts_3:
  "exact_byte 96" "exact_byte 97" "exact_byte 98" "exact_byte 99" "exact_byte 100" "exact_byte 101" "exact_byte 102" "exact_byte 103" "exact_byte 104" "exact_byte 105" "exact_byte 106" "exact_byte 107" "exact_byte 108" "exact_byte 109" "exact_byte 110" "exact_byte 111"
  "exact_byte 112" "exact_byte 113" "exact_byte 114" "exact_byte 115" "exact_byte 116" "exact_byte 117" "exact_byte 118" "exact_byte 119" "exact_byte 120" "exact_byte 121" "exact_byte 122" "exact_byte 123" "exact_byte 124" "exact_byte 125" "exact_byte 126" "exact_byte 127"
  by (simp_all add: exact_byte_def normalized_def fl_eval astype_int_def)

lemma exact_byte_facts_4:
  "exact_byte 128" "exact_byte 129" "exact_byte 130" "exact_byte 131" "exact_byte 132" "exact_byte 133" "exact_byte 134" "exact_byte 135" "exact_byte 136" "exact_byte 137" "exact_byte 138" "exact_byte 139" "exact_byte 140" "exact_byte 141" "exact_byte 142" "exact_byte 143"
  "exact_byte 144" "exact_byte 145" "exact_byte 146" "exact_byte 147" "exact_byte 148" "exact_byte 149" "exact_byte 150" "exact_byte 151" "exact_byte 152" "exact_byte 153" "exact_byte 154" "exact_byte 155" "exact_byte 156" "exact_byte 157" "exact_byte 158" "exact_byte 159"
  by (simp_all add: exact_byte_def normalized_def fl_eval astype_int_def)

lemma exact_byte_facts_5:
  "exact_byte 160" "exact_byte 161" "exact_byte 162" "exact_byte 163" "exact_byte 164" "exact_byte 165" "exact_byte 166" "exact_byte 167" "exact_byte 168" "exact_byte 169" "exact_byte 170" "exact_byte 171" "exact_byte 172" "exact_byte 173" "exact_byte 174" "exact_byte 175"
  "exact_byte 176" "exact_byte 177" "exact_byte 178" "exact_byte 179" "exact_byte 180" "exact_byte 181" "exact_byte 182" "exact_byte 183" "exact_byte 184" "exact_byte 185" "exact_byte 186" "exact_byte 187" "exact_byte 188" "exact_byte 189" "exact_byte 190" "exact_byte 191"
  by (simp_all add: exact_byte_def normalized_def fl_eval astype_int_def)

lemma exact_byte_facts_6:
  "exact_byte 192" "exact_byte 193" "exact_byte 194" "exact_byte 195" "exact_byte 196" "exact_byte 197" "exact_byte 198" "exact_byte 199" "exact_byte 200" "exact_byte 201" "exact_byte 202" "exact_byte 203" "exact_byte 204" "exact_byte 205" "exact_byte 206" "exact_byte 207"
  "exact_byte 208" "exact_byte 209" "exact_byte 210" "exact_byte 211" "exact_byte 212" "exact_byte 213" "exact_byte 214" "exact_byte 215" "exact_byte 216" "exact_byte 217" "exact_byte 218" "exact_byte 219" "exact_byte 220" "exact_byte 221" "exact_byte 222" "exact_byte 223"
  by (simp_all add: exact_byte_def normalized_def fl_eval astype_int_def)

lemma exact_byte_facts_7:
  "exact_byte 224" "exact_byte 225" "exact_byte 226" "exact_byte 227" "exact_byte 228" "exact_byte 229" "exact_byte 230" "exact_byte 231" "exact_byte 232" "exact_byte 233" "exact_byte 234" "exact_byte 235" "exact_byte 236" "exact_byte 237" "exact_byte 238" "exact_byte 239"
  "exact_byte 240" "exact_byte 241" "exact_byte 242" "exact_byte 243" "exact_byte 244" "exact_byte 245" "exact_byte 246" "exact_byte 247" "exact_byte 248" "exact_byte 249" "exact_byte 250" "exact_byte 251" "exact_byte 252" "exact_byte 253" "exact_byte 254" "exact_byte 255"
  by (simp_all add: exact_byte_def normalized_def fl_eval astype_int_def)


lemmas exact_byte_facts = exact_byte_facts_0 exact_byte_facts_1 exact_byte_facts_2
  exact_byte_facts_3 exact_byte_facts_4 exact_byte_facts_5 exact_byte_facts_6
  exact_byte_facts_7

lemma exact_byte_table: "\<forall>a<16. \<forall>b<16. exact_byte (of_nat (16 * a + b))"
  by (simp add: all_less_16 exact_byte_facts)

lemma exact_byte_all: "exact_byte k"
proof -
  have lt: "unat k < 256" using unsigned_less[of k] by simp
  then have a: "unat k div 16 < 16" and b: "unat k mod 16 < 16" by auto
  have "exact_byte (of_nat (16 * (unat k div 16) + unat k mod 16))"
    using exact_byte_table a b by blast
  then show ?thesis by simp
qed

lemma fl_normalized: "fl (normalized k * 255) = real (unat k)"
  using exact_byte_all by (simp add: exact_byte_def)

lemma astype_int_of_nat: "astype_int (real n) = int n"
  by (simp add: astype_int_def)

lemma astype_int_normalized: "astype_int (fl (normalized k * 255)) = uint k"
  unfolding fl_normalized using astype_int_of_nat[of "unat k"] by simp

lemma to_ubyte_normalized: "to_ubyte (normalized k) = k"
  by (simp add: to_ubyte_def astype_int_normalized)

lemma normalized_inj: "normalized a = normalized b \<longleftrightarrow> a = b"
  using to_ubyte_normalized by metis

lemma normalized_0: "normalized 0 = 0"
  by (simp add: normalized_def fl_def)

lemma normalized_eq_0: "normalized a = 0 \<longleftrightarrow> a = 0"
  using normalized_inj[of a 0] by (simp add: normalized_0)

lemma to_ubyte_0: "to_ubyte 0 = 0"
  by (simp add: to_ubyte_def fl_def astype_int_def)

lemma to_ubyte_1: "to_ubyte 1 = 255"
  by (simp add: to_ubyte_def fl_eval astype_int_def)

subsection \<open>Hexadecimal colour strings\<close>

lemma hex_digit_props:
  "\<forall>d<16. lower_char (hex_digit d) = hex_digit d \<and> is_hex (hex_digit d) \<and>
      hex_val (hex_digit d) = d"
  by (simp add: all_less_16 hex_digit_def lower_char_def is_hex_def hex_val_def)

lemma format_02x_byte:
  assumes "n < 256"
  shows "format_02x (int n) = [hex_digit (n div 16), hex_digit (n mod 16)]"
proof (cases "n < 16")
  case True
  then have "hex_nat n = [hex_digit n]" by (simp add: hex_nat.simps)
  moreover have "hex_digit 0 = CHR ''0''" by (simp add: hex_digit_def)
  ultimately show ?thesis using True by (simp add: format_02x_def)
next
  case False
  then have d: "n div 16 < 16" using assms by auto
  have "hex_nat n = hex_nat (n div 16) @ [hex_digit (n mod 16)]"
    using False by (subst hex_nat.simps) simp
  also have "hex_nat (n div 16) = [hex_digit (n div 16)]"
    using d by (simp add: hex_nat.simps)
  finally show ?thesis by (simp add: format_02x_def)
qed

lemma int16_pair: "int16 [c, d] = 16 * hex_val c + hex_val d"
  by (simp add: int16_def)

lemma getrgb_digits:
  assumes "a1 < 16" "a2 < 16" "b1 < 16" "b2 < 16" "c1 < 16" "c2 < 16"
  shows "getrgb [CHR ''#'', hex_digit a1, hex_digit a2, hex_digit b1, hex_digit b2,
                 hex_digit c1, hex_digit c2]
         = Inr (16 * a1 + a2, 16 * b1 + b2, 16 * c1 + c2)"
proof -
  have "lower_char CHR ''#'' = CHR ''#''" by (simp add: lower_char_def)
  then show ?thesis
    using assms hex_digit_props by (simp add: getrgb_def int16_pair)
qed

lemma getrgb_format:
  assumes "r < 256" "g < 256" "b < 256"
  shows "getrgb (''#'' @ format_02x (int r) @ format_02x (int g) @ format_02x (int b))
         = Inr (r, g, b)"
proof -
  have "r div 16 < 16" "g div 16 < 16" "b div 16 < 16" using assms by auto
  then show ?thesis
    using assms getrgb_digits[of "r div 16" "r mod 16" "g div 16" "g mod 16" "b div 16" "b mod 16"]
    by (simp add: format_02x_byte)
qed

lemma hex_val_le: "hex_val c \<le> 16"
proof -
  have "length (takeWhile (\<lambda>d. d \<noteq> c) ''0123456789abcdef'') \<le> length ''0123456789abcdef''"
    by (rule length_takeWhile_le)
  then show ?thesis by (simp add: hex_val_def)
qed

lemma hex_val_is_hex: "is_hex c \<Longrightarrow> hex_val c < 16"
  by (auto simp: is_hex_def hex_val_def)

lemma length_7:
  assumes "length xs = 7"
  obtains c0 c1 c2 c3 c4 c5 c6 where "xs = [c0, c1, c2, c3, c4, c5, c6]"
  using assms by (auto simp: eval_nat_numeral length_Suc_conv)

lemma getrgb_bound:
  assumes "getrgb s = Inr (r, g, b)"
  shows "r < 256 \<and> g < 256 \<and> b < 256"
proof -
  let ?c = "map lower_char s"
  from assms have len: "length ?c = 7" and hex: "list_all is_hex (drop 1 ?c)"
    and val: "r = int16 (take 2 (drop 1 ?c))" "g = int16 (take 2 (drop 3 ?c))"
      "b = int16 (take 2 (drop 5 ?c))"
    by (auto simp: getrgb_def Let_def split: if_splits)
  from len obtain c0 c1 c2 c3 c4 c5 c6 where c: "?c = [c0, c1, c2, c3, c4, c5, c6]"
    by (rule length_7)
  from hex c have "hex_val c1 < 16" "hex_val c2 < 16" "hex_val c3 < 16" "hex_val c4 < 16"
    "hex_val c5 < 16" "hex_val c6 < 16"
    by (simp_all add: hex_val_is_hex)
  then show ?thesis using val c by (simp add: int16_pair)
qed

subsection \<open>The colour keyer on bytes\<close>

lemma to_rgba_convert: "to_rgba (pixels (convert_RGBA im)) = to_rgba (pixels im)"
  by (simp add: convert_RGBA_def to_rgba_def)

lemma grid_ok_to_rgba:
  "valid_image im \<Longrightarrow> grid_ok (width im) (height im) (to_rgba (pixels im))"
  by (cases "pixels im") (simp_all add: valid_image_def to_rgba_def grid_ok_def list_all_iff)

lemma grid_ok_nth:
  "grid_ok w h rows \<Longrightarrow> y < h \<Longrightarrow> length (rows ! y) = w"
  by (simp add: grid_ok_def list_all_length)

lemma first_pixel:
  assumes "valid_image im" "0 < width im" "0 < height im"
  obtains row rows where "to_rgba (pixels im) = (getpixel im 0 0 # row) # rows"
proof -
  let ?g = "to_rgba (pixels im)"
  have g: "grid_ok (width im) (height im) ?g" using assms(1) by (rule grid_ok_to_rgba)
  then have "length ?g = height im" by (simp add: grid_ok_def)
  with assms(3) obtain r rows where rows: "?g = r # rows" by (cases ?g) auto
  have "length (?g ! 0) = width im" using g assms(3) by (rule grid_ok_nth)
  with rows assms(2) obtain p row where "r = p # row" by (cases r) auto
  with rows have "?g = (getpixel im 0 0 # row) # rows" by (simp add: getpixel_def)
  then show thesis by (rule that)
qed

lemma byte_eq_of_nat:
  assumes "c < 256"
  shows "r = (of_nat c :: ubyte) \<longleftrightarrow> unat r = c"
proof
  assume "r = of_nat c"
  then show "unat r = c" using assms by (simp add: unat_of_nat)
next
  assume "unat r = c"
  then have "of_nat (unat r) = (of_nat c :: ubyte)" by simp
  then show "r = of_nat c" by simp
qed

lemma target_channel:
  assumes "c < 256"
  shows "fl (real c / 255) = normalized (of_nat c)"
  using assms by (simp add: normalized_def unat_of_nat)

lemma normalized_eq_target:
  assumes "c < 256"
  shows "normalized r = fl (real c / 255) \<longleftrightarrow> unat r = c"
  using assms by (simp add: target_channel normalized_inj byte_eq_of_nat)

lemma exact_pixel_bytes:
  assumes "cr < 256" "cg < 256" "cb < 256"
  shows "(\<lambda>(r, g, b, a). (to_ubyte r, to_ubyte g, to_ubyte b, to_ubyte a))
           ((\<lambda>(r, g, b, a).
               let mask = ((r, g, b) = (fl (real cr / 255), fl (real cg / 255), fl (real cb / 255)))
               in (r, g, b, if mask \<or> a = 0 then 0 else 1))
             ((\<lambda>(r, g, b, a). (normalized r, normalized g, normalized b, normalized a)) p))
         = exact_keyed_pixel (cr, cg, cb) p"
  using assms
  by (cases p)
    (simp add: exact_keyed_pixel_def to_ubyte_normalized normalized_eq_target normalized_eq_0
      to_ubyte_0 to_ubyte_1)

lemma fromarray_exact_mask:
  assumes "cr < 256" "cg < 256" "cb < 256"
  shows "fromarray (h, w)
           (exact_mask (np_array_RGBA im)
              (fl (real cr / 255), fl (real cg / 255), fl (real cb / 255)))
         = \<lparr>width = w, height = h,
            pixels = RGBA (map (map (exact_keyed_pixel (cr, cg, cb))) (to_rgba (pixels im)))\<rparr>"
  using exact_pixel_bytes[OF assms]
  by (simp add: fromarray_def exact_mask_def np_array_RGBA_def to_rgba_convert comp_def)

lemma add_transparency_plain:
  assumes "\<not> widget_value (detect_checkbox st)"
    and "getrgb (color_picker_value st) = Inr used"
  shows "add_transparency im st =
           (st, Inr \<lparr>width = width im, height = height im,
                     pixels = RGBA (map (map (exact_keyed_pixel used)) (to_rgba (pixels im)))\<rparr>)"
proof -
  obtain cr cg cb where used: "used = (cr, cg, cb)" by (cases used)
  with assms(2) have "cr < 256 \<and> cg < 256 \<and> cb < 256" using getrgb_bound by blast
  then show ?thesis
    using assms used by (simp add: add_transparency_def truth_def fromarray_exact_mask)
qed

lemma detect_color_first:
  assumes "to_rgba (pixels im) = ((r0, g0, b0, a0) # row) # rows"
  shows "\<exists>st1. detect_color (np_array_RGBA im) st = Inr st1 \<and>
           getrgb (color_picker_value st1) = Inr (unat r0, unat g0, unat b0) \<and>
           color_picker_value st1 =
             ''#'' @ format_02x (uint r0) @ format_02x (uint g0) @ format_02x (uint b0) \<and>
           detect_checkbox st1 = detect_checkbox st \<and> match_checkbox st1 = match_checkbox st \<and>
           size_spinner_value st1 = size_spinner_value st \<and>
           input_card_title st1 = input_card_title st \<and>
           output_card_title st1 = output_card_title st \<and>
           max_static_text_value st1 = max_static_text_value st \<and>
           length (notifications st1) = Suc (length (notifications st))"
proof -
  have lt: "unat r0 < 256" "unat g0 < 256" "unat b0 < 256"
    using unsigned_less[of r0] unsigned_less[of g0] unsigned_less[of b0] by simp_all
  have "getrgb (''#'' @ format_02x (int (unat r0)) @ format_02x (int (unat g0)) @
          format_02x (int (unat b0))) = Inr (unat r0, unat g0, unat b0)"
    using lt by (rule getrgb_format)
  then show ?thesis
    using assms
    by (simp add: detect_color_def np_array_RGBA_def to_rgba_convert astype_int_normalized Let_def)
qed

lemma add_transparency_detect:
  assumes "widget_value (detect_checkbox st)"
    and "to_rgba (pixels im) = ((r0, g0, b0, a0) # row) # rows"
  shows "\<exists>st1. add_transparency im st =
           (st1, Inr \<lparr>width = width im, height = height im,
                      pixels = RGBA (map (map (exact_keyed_pixel (unat r0, unat g0, unat b0)))
                                 (to_rgba (pixels im)))\<rparr>) \<and>
           detect_color (np_array_RGBA im) st = Inr st1 \<and>
           getrgb (color_picker_value st1) = Inr (unat r0, unat g0, unat b0)"
proof -
  obtain st1 where d: "detect_color (np_array_RGBA im) st = Inr st1"
    and c: "getrgb (color_picker_value st1) = Inr (unat r0, unat g0, unat b0)"
    using detect_color_first[OF assms(2)] by blast
  have lt: "unat r0 < 256" "unat g0 < 256" "unat b0 < 256"
    using unsigned_less[of r0] unsigned_less[of g0] unsigned_less[of b0] by simp_all
  show ?thesis
    using assms(1) d c fromarray_exact_mask[OF lt, of "height im" "width im" im]
    by (simp add: add_transparency_def truth_def)
qed

subsection \<open>Exact mode\<close>

lemma getpixel_map:
  assumes "valid_image im" "y < height im" "x < width im"
  shows "getpixel \<lparr>width = w, height = h,
            pixels = RGBA (map (map f) (to_rgba (pixels im)))\<rparr> x y = f (getpixel im x y)"
proof -
  have g: "grid_ok (width im) (height im) (to_rgba (pixels im))"
    using assms(1) by (rule grid_ok_to_rgba)
  then have "y < length (to_rgba (pixels im))" using assms(2) by (simp add: grid_ok_def)
  moreover have "x < length (to_rgba (pixels im) ! y)"
    using grid_ok_nth[OF g assms(2)] assms(3) by simp
  ultimately show ?thesis by (simp add: getpixel_def to_rgba_def)
qed

lemma valid_image_map:
  assumes "valid_image im"
  shows "valid_image \<lparr>width = width im, height = height im,
            pixels = RGBA (map (map f) (to_rgba (pixels im)))\<rparr>"
  using grid_ok_to_rgba[OF assms] by (simp add: valid_image_def grid_ok_def list_all_iff)

lemma add_transparency_keyed:
  assumes "valid_image im" "0 < width im" "0 < height im"
    and "widget_value (detect_checkbox st) \<or> (\<exists>c. getrgb (color_picker_value st) = Inr c)"
  shows "\<exists>st' used.
           add_transparency im st =
             (st', Inr \<lparr>width = width im, height = height im,
                        pixels = RGBA (map (map (exact_keyed_pixel used)) (to_rgba (pixels im)))\<rparr>) \<and>
           getrgb (color_picker_value st') = Inr used"
proof (cases "widget_value (detect_checkbox st)")
  case True
  obtain row rows where f: "to_rgba (pixels im) = (getpixel im 0 0 # row) # rows"
    using assms(1-3) by (rule first_pixel)
  obtain r0 g0 b0 a0 where p: "getpixel im 0 0 = (r0, g0, b0, a0)"
    by (cases "getpixel im 0 0")
  show ?thesis
    using add_transparency_detect[OF True f[unfolded p]] by blast
next
  case False
  with assms(4) obtain c where "getrgb (color_picker_value st) = Inr c" by blast
  with False show ?thesis using add_transparency_plain by blast
qed

text \<open>
  C2.  With the exact-match box ticked, the colour keyer returns an image of the size of
  its input in which every pixel keeps its red, green and blue bytes and has alpha 0
  exactly when its colour is the used colour (the one the colour picker holds after the
  call) or its own alpha is 0, and alpha 255 otherwise.  Equality of the normalised
  channels is equality of the bytes, since normalisation is injective.
\<close>

theorem add_transparency_exact_match:
  assumes "widget_value (match_checkbox st)"
    and "valid_image im" "0 < width im" "0 < height im"
    and "widget_value (detect_checkbox st) \<or> (\<exists>c. getrgb (color_picker_value st) = Inr c)"
  shows "\<exists>st' out used.
           add_transparency im st = (st', Inr out) \<and>
           getrgb (color_picker_value st') = Inr used \<and>
           width out = width im \<and> height out = height im \<and> valid_image out \<and>
           (\<forall>y<height im. \<forall>x<width im.
              getpixel out x y = exact_keyed_pixel used (getpixel im x y)) \<and>
           (\<forall>r g b. (normalized r, normalized g, normalized b) =
                (fl (real (fst used) / 255), fl (real (fst (snd used)) / 255),
                 fl (real (snd (snd used)) / 255))
              \<longleftrightarrow> (unat r, unat g, unat b) = used)"
proof -
  obtain st' used where a: "add_transparency im st =
      (st', Inr \<lparr>width = width im, height = height im,
                 pixels = RGBA (map (map (exact_keyed_pixel used)) (to_rgba (pixels im)))\<rparr>)"
    and u: "getrgb (color_picker_value st') = Inr used"
    using add_transparency_keyed[OF assms(2-5)] by blast
  obtain cr cg cb where c: "used = (cr, cg, cb)" by (cases used)
  with u have lt: "cr < 256" "cg < 256" "cb < 256" using getrgb_bound by blast+
  have n: "\<forall>r g b. (normalized r, normalized g, normalized b) =
                (fl (real (fst used) / 255), fl (real (fst (snd used)) / 255),
                 fl (real (snd (snd used)) / 255))
              \<longleftrightarrow> (unat r, unat g, unat b) = used"
    using lt by (simp add: c normalized_eq_target)
  let ?out = "\<lparr>width = width im, height = height im,
      pixels = RGBA (map (map (exact_keyed_pixel used)) (to_rgba (pixels im)))\<rparr>"
  have v: "valid_image ?out" using assms(2) by (rule valid_image_map)
  have p: "\<forall>y<height im. \<forall>x<width im.
      getpixel ?out x y = exact_keyed_pixel used (getpixel im x y)"
    using assms(2) by (simp add: getpixel_map)
  have s: "width ?out = width im \<and> height ?out = height im" by simp
  from a u s v p n show ?thesis by blast
qed


lemma valid_white_black: "valid_image white_black"
  by (simp add: white_black_def valid_image_def grid_ok_def)

lemma getrgb_white: "getrgb ''#FFFFFF'' = Inr (255, 255, 255)"
  by (simp add: getrgb_def lower_char_def is_hex_def int16_def hex_val_def)

theorem add_transparency_exact_match_witness:
  "widget_value (match_checkbox match_checked) \<and> valid_image white_black \<and>
   0 < width white_black \<and> 0 < height white_black \<and>
   getrgb (color_picker_value match_checked) = Inr (255, 255, 255) \<and>
   (\<exists>st' out. add_transparency white_black match_checked = (st', Inr out) \<and>
      getpixel out 0 0 = (255, 255, 255, 0) \<and> getpixel out 1 0 = (0, 0, 0, 255))"
proof -
  have m: "widget_value (match_checkbox match_checked)"
    by (simp add: match_checked_def)
  have c: "getrgb (color_picker_value match_checked) = Inr (255, 255, 255)"
    by (simp add: match_checked_def initial_widgets_def getrgb_white)
  have d: "\<not> widget_value (detect_checkbox match_checked)"
    by (simp add: match_checked_def initial_widgets_def)
  have w: "0 < width white_black" and h: "0 < height white_black"
    by (simp_all add: white_black_def)
  from c have e: "widget_value (detect_checkbox match_checked) \<or>
      (\<exists>c. getrgb (color_picker_value match_checked) = Inr c)" by blast
  obtain st' out used where a: "add_transparency white_black match_checked = (st', Inr out)"
    and u: "getrgb (color_picker_value st') = Inr used"
    and p: "\<forall>y<height white_black. \<forall>x<width white_black.
              getpixel out x y = exact_keyed_pixel used (getpixel white_black x y)"
    using add_transparency_exact_match[OF m valid_white_black w h e] by blast
  have "fst (add_transparency white_black match_checked) = match_checked"
    using add_transparency_plain[OF d c] by simp
  with a have "st' = match_checked" by simp
  with u c have used: "used = (255, 255, 255)" by simp
  have "getpixel out 0 0 = exact_keyed_pixel used (getpixel white_black 0 0)"
    and "getpixel out 1 0 = exact_keyed_pixel used (getpixel white_black 1 0)"
    using p by (simp_all add: white_black_def)
  then have "getpixel out 0 0 = (255, 255, 255, 0) \<and> getpixel out 1 0 = (0, 0, 0, 255)"
    by (simp add: used exact_keyed_pixel_def getpixel_def to_rgba_def white_black_def)
  with a m c w h show ?thesis using valid_white_black by blast
qed

subsection \<open>Colour detection\<close>

lemma detect_color_picker_irrelevant:
  "detect_color arr (st\<lparr>color_picker_value := c\<rparr>) = detect_color arr st"
  by (simp add: detect_color_def Let_def split: list.splits prod.splits)

lemma add_transparency_detect_picker:
  assumes "widget_value (detect_checkbox st)"
    and "to_rgba (pixels im) = ((r0, g0, b0, a0) # row) # rows"
  shows "add_transparency im (st\<lparr>color_picker_value := c\<rparr>) = add_transparency im st"
proof -
  obtain st1 where d: "detect_color (np_array_RGBA im) st = Inr st1"
    using detect_color_first[OF assms(2)] by blast
  then have "detect_color (np_array_RGBA im) (st\<lparr>color_picker_value := c\<rparr>) = Inr st1"
    by (simp add: detect_color_picker_irrelevant)
  with d show ?thesis using assms(1) by (simp add: add_transparency_def)
qed

text \<open>
  C6.  With the detect box ticked, the used colour is the red, green and blue of the
  pixel at (0,0): the colour picker holds it after the call as \<^verbatim>\<open>#rrggbb\<close>, the mask
  is keyed on it, the alpha of that pixel plays no part, and the colour the picker held
  before the call changes neither the returned image nor the state.
\<close>

theorem add_transparency_auto_detect:
  assumes "widget_value (detect_checkbox st)"
    and "valid_image im" "0 < width im" "0 < height im"
  shows "\<exists>st' out r0 g0 b0 a0.
           getpixel im 0 0 = (r0, g0, b0, a0) \<and>
           add_transparency im st = (st', Inr out) \<and>
           getrgb (color_picker_value st') = Inr (unat r0, unat g0, unat b0) \<and>
           color_picker_value st' =
             ''#'' @ format_02x (uint r0) @ format_02x (uint g0) @ format_02x (uint b0) \<and>
           (\<forall>y<height im. \<forall>x<width im.
              getpixel out x y =
                exact_keyed_pixel (unat r0, unat g0, unat b0) (getpixel im x y)) \<and>
           (\<forall>c. add_transparency im (st\<lparr>color_picker_value := c\<rparr>) = (st', Inr out))"
proof -
  obtain row rows where f: "to_rgba (pixels im) = (getpixel im 0 0 # row) # rows"
    using assms(2-4) by (rule first_pixel)
  obtain r0 g0 b0 a0 where p: "getpixel im 0 0 = (r0, g0, b0, a0)"
    by (cases "getpixel im 0 0")
  note f' = f[unfolded p]
  let ?out = "\<lparr>width = width im, height = height im,
      pixels = RGBA (map (map (exact_keyed_pixel (unat r0, unat g0, unat b0)))
                 (to_rgba (pixels im)))\<rparr>"
  obtain st1 where a: "add_transparency im st = (st1, Inr ?out)"
    and d: "detect_color (np_array_RGBA im) st = Inr st1"
    and u: "getrgb (color_picker_value st1) = Inr (unat r0, unat g0, unat b0)"
    using add_transparency_detect[OF assms(1) f'] by blast
  have s: "color_picker_value st1 =
      ''#'' @ format_02x (uint r0) @ format_02x (uint g0) @ format_02x (uint b0)"
    using detect_color_first[OF f', of st] d by auto
  have q: "\<forall>y<height im. \<forall>x<width im.
      getpixel ?out x y = exact_keyed_pixel (unat r0, unat g0, unat b0) (getpixel im x y)"
    using assms(2) by (simp add: getpixel_map)
  have i: "\<forall>c. add_transparency im (st\<lparr>color_picker_value := c\<rparr>) = (st1, Inr ?out)"
    using add_transparency_detect_picker[OF assms(1) f'] a by simp
  from p a u s q i show ?thesis by blast
qed

lemma valid_corner_image: "valid_image corner_image"
  by (simp add: corner_image_def valid_image_def grid_ok_def)

lemma format_02x_examples:
  "format_02x 10 = ''0a''" "format_02x 20 = ''14''" "format_02x 30 = ''1e''"
  by (simp_all add: format_02x_def hex_nat.simps hex_digit_def)

theorem add_transparency_auto_detect_witness:
  "widget_value (detect_checkbox detect_checked) \<and> valid_image corner_image \<and>
   0 < width corner_image \<and> 0 < height corner_image \<and>
   getpixel corner_image 0 0 = (10, 20, 30, 128) \<and>
   (\<exists>st' out. add_transparency corner_image detect_checked = (st', Inr out) \<and>
      getrgb (color_picker_value st') = Inr (10, 20, 30) \<and>
      color_picker_value st' = ''#0a141e'' \<and>
      getpixel out 0 0 = (10, 20, 30, 0) \<and> getpixel out 1 0 = (200, 200, 200, 255))"
proof -
  have m: "widget_value (detect_checkbox detect_checked)"
    by (simp add: detect_checked_def)
  have w: "0 < width corner_image" and h: "0 < height corner_image"
    by (simp_all add: corner_image_def)
  have g: "getpixel corner_image 0 0 = (10, 20, 30, 128)"
    by (simp add: corner_image_def getpixel_def to_rgba_def)
  obtain st' out r0 g0 b0 a0 where p: "getpixel corner_image 0 0 = (r0, g0, b0, a0)"
    and a: "add_transparency corner_image detect_checked = (st', Inr out)"
    and u: "getrgb (color_picker_value st') = Inr (unat r0, unat g0, unat b0)"
    and s: "color_picker_value st' =
      ''#'' @ format_02x (uint r0) @ format_02x (uint g0) @ format_02x (uint b0)"
    and q: "\<forall>y<height corner_image. \<forall>x<width corner_image.
      getpixel out x y =
        exact_keyed_pixel (unat r0, unat g0, unat b0) (getpixel corner_image x y)"
    using add_transparency_auto_detect[OF m valid_corner_image w h] by blast
  from p g have r: "r0 = 10" "g0 = 20" "b0 = 30" by simp_all
  have u': "getrgb (color_picker_value st') = Inr (10, 20, 30)"
    using u by (simp add: r)
  have s': "color_picker_value st' = ''#0a141e''"
    using s by (simp add: r format_02x_examples)
  have "getpixel out 0 0 = exact_keyed_pixel (unat r0, unat g0, unat b0) (getpixel corner_image 0 0)"
    and "getpixel out 1 0 = exact_keyed_pixel (unat r0, unat g0, unat b0) (getpixel corner_image 1 0)"
    using q by (simp_all add: corner_image_def)
  then have "getpixel out 0 0 = (10, 20, 30, 0) \<and> getpixel out 1 0 = (200, 200, 200, 255)"
    by (simp add: r exact_keyed_pixel_def corner_image_def getpixel_def to_rgba_def)
  with a u' s' m w h g show ?thesis using valid_corner_image by blast
qed

subsection \<open>The match checkbox\<close>

lemma valid_grey_pixel: "valid_image grey_pixel"
  by (simp add: grey_pixel_def valid_image_def grid_ok_def)

lemma normalized_255: "normalized 255 = 1"
  by (simp add: normalized_def fl_eval)

text \<open>
  C1.  With the match box unticked the documented behaviour is the fade.  Line 121 tests
  the checkbox object, not its \<^verbatim>\<open>value\<close>, so the binary mask runs all the same: a
  grey pixel keyed against white comes out with alpha 255, where the fade of lines
  127-139 gives 127.
\<close>

theorem add_transparency_unticked_match:
  "\<not> widget_value (match_checkbox initial_widgets) \<and>
   getrgb (color_picker_value initial_widgets) = Inr (255, 255, 255) \<and>
   add_transparency grey_pixel initial_widgets =
     (initial_widgets,
      Inr \<lparr>width = 1, height = 1, pixels = RGBA [[(128, 128, 128, 255)]]\<rparr>) \<and>
   fromarray (1, 1)
     (fade (np_array_RGBA grey_pixel) (fl (255 / 255), fl (255 / 255), fl (255 / 255))) =
     \<lparr>width = 1, height = 1, pixels = RGBA [[(128, 128, 128, 127)]]\<rparr>"
proof -
  have c: "getrgb (color_picker_value initial_widgets) = Inr (255, 255, 255)"
    by (simp add: initial_widgets_def getrgb_white)
  have d: "\<not> widget_value (detect_checkbox initial_widgets)"
    and m: "\<not> widget_value (match_checkbox initial_widgets)"
    by (simp_all add: initial_widgets_def)
  have a: "add_transparency grey_pixel initial_widgets =
     (initial_widgets,
      Inr \<lparr>width = 1, height = 1, pixels = RGBA [[(128, 128, 128, 255)]]\<rparr>)"
    using add_transparency_plain[OF d c, of grey_pixel]
    by (simp add: grey_pixel_def to_rgba_def exact_keyed_pixel_def)
  have n: "normalized 128 = 282578800148737 / 562949953421312"
    by (simp add: normalized_def fl_eval)
  have f: "to_ubyte \<bar>fl (normalized 128 - 1)\<bar> = 127"
    unfolding n by (simp add: to_ubyte_def astype_int_def fl_eval)
  have "fromarray (1, 1) (fade (np_array_RGBA grey_pixel) (1, 1, 1)) =
     \<lparr>width = 1, height = 1, pixels = RGBA [[(128, 128, 128, 127)]]\<rparr>"
    by (simp add: fromarray_def fade_def np_array_RGBA_def convert_RGBA_def to_rgba_def
        grey_pixel_def to_ubyte_normalized f)
  then have "fromarray (1, 1)
     (fade (np_array_RGBA grey_pixel) (fl (255 / 255), fl (255 / 255), fl (255 / 255))) =
     \<lparr>width = 1, height = 1, pixels = RGBA [[(128, 128, 128, 127)]]\<rparr>"
    by (simp add: fl_eval)
  with m c a show ?thesis by blast
qed

subsection \<open>Writing doubles out as bytes\<close>

lemma bit_length_le: "n < 2 ^ k \<Longrightarrow> bit_length n \<le> k"
proof (induction k arbitrary: n)
  case 0
  then show ?case by (simp add: bit_length_0)
next
  case (Suc k)
  show ?case
  proof (cases "n = 0")
    case True
    then show ?thesis by (simp add: bit_length_0)
  next
    case False
    have "n div 2 < 2 ^ k" using Suc.prems by auto
    then have "bit_length (n div 2) \<le> k" by (rule Suc.IH)
    then show ?thesis using False by (subst bit_length.simps) simp
  qed
qed

lemma floor_log2_le_7:
  assumes "0 < y" "y \<le> 255"
  shows "floor_log2 y \<le> 7"
proof (cases "1 \<le> y")
  case True
  have "\<lfloor>y\<rfloor> \<le> 255" using assms(2) by (simp add: floor_le_iff)
  then have "nat \<lfloor>y\<rfloor> < 256" by linarith
  then have "nat \<lfloor>y\<rfloor> < 2 ^ 8" by simp
  then have "bit_length (nat \<lfloor>y\<rfloor>) \<le> 8" by (rule bit_length_le)
  then show ?thesis using True by (simp add: floor_log2_def)
next
  case False
  then show ?thesis by (simp add: floor_log2_def)
qed

lemma round_half_even_le:
  assumes "z \<le> of_int M"
  shows "round_half_even z \<le> M"
proof -
  have f: "\<lfloor>z\<rfloor> \<le> M" using assms by (simp add: floor_le_iff)
  have "\<lfloor>z\<rfloor> + 1 \<le> M" if "0 < z - of_int \<lfloor>z\<rfloor>"
  proof -
    have "of_int \<lfloor>z\<rfloor> < z" using that by simp
    then have "(of_int \<lfloor>z\<rfloor> :: real) < of_int M" using assms by linarith
    then have "\<lfloor>z\<rfloor> < M" by simp
    then show ?thesis by simp
  qed
  with f show ?thesis by (auto simp: round_half_even_def Let_def)
qed

lemma round_half_even_nonneg:
  assumes "0 \<le> z"
  shows "0 \<le> round_half_even z"
proof -
  have "0 \<le> \<lfloor>z\<rfloor>" using assms by simp
  then show ?thesis by (auto simp: round_half_even_def Let_def)
qed

lemma pow2_pos: "0 < pow2 s"
  by (simp add: pow2_def)

lemma fl_nonneg:
  assumes "0 \<le> y"
  shows "0 \<le> fl y"
proof (cases "y = 0")
  case True
  then show ?thesis by (simp add: fl_def)
next
  case False
  with assms have pos: "0 < y" by simp
  let ?s = "max (floor_log2 \<bar>y\<bar> - 52) (- 1074)"
  have "0 \<le> y / pow2 ?s" using pos pow2_pos[of ?s] by simp
  then have "0 \<le> round_half_even (y / pow2 ?s)" by (rule round_half_even_nonneg)
  then have "0 \<le> real_of_int (round_half_even (y / pow2 ?s)) * pow2 ?s"
    using pow2_pos[of ?s] by simp
  then show ?thesis using pos by (simp add: fl_def Let_def)
qed

lemma fl_le_255:
  assumes "0 \<le> y" "y \<le> 255"
  shows "fl y \<le> 255"
proof (cases "y = 0")
  case True
  then show ?thesis by (simp add: fl_def)
next
  case False
  with assms have pos: "0 < y" by simp
  define s where "s = max (floor_log2 y - 52) (- 1074)"
  have s0: "s < 0" using floor_log2_le_7[OF pos assms(2)] by (simp add: s_def)
  then have p: "pow2 s = 1 / 2 ^ nat (- s)" by (simp add: pow2_def)
  have "y / pow2 s = y * 2 ^ nat (- s)" by (simp add: p)
  also have "\<dots> \<le> 255 * 2 ^ nat (- s)" using assms(2) by simp
  also have "\<dots> = real_of_int (255 * 2 ^ nat (- s))" by simp
  finally have "round_half_even (y / pow2 s) \<le> 255 * 2 ^ nat (- s)"
    by (rule round_half_even_le)
  then have "real_of_int (round_half_even (y / pow2 s)) \<le> 255 * 2 ^ nat (- s)"
    by (metis of_int_le_iff of_int_mult of_int_numeral of_int_power)
  then have "real_of_int (round_half_even (y / pow2 s)) * pow2 s \<le> 255"
    by (simp add: p field_simps)
  then show ?thesis using pos by (simp add: fl_def Let_def s_def)
qed

lemma unat_to_ubyte:
  assumes "0 \<le> x" "x \<le> 1"
  shows "int (unat (to_ubyte x)) = \<lfloor>fl (x * 255)\<rfloor>"
proof -
  have a: "0 \<le> fl (x * 255)" using assms(1) by (intro fl_nonneg) simp
  have b: "fl (x * 255) \<le> 255" using assms by (intro fl_le_255) simp_all
  have f0: "0 \<le> \<lfloor>fl (x * 255)\<rfloor>" using a by simp
  have f1: "\<lfloor>fl (x * 255)\<rfloor> < 256" using b by (simp add: floor_less_iff)
  have "unat (word_of_int \<lfloor>fl (x * 255)\<rfloor> :: ubyte) = nat \<lfloor>fl (x * 255)\<rfloor>"
    using f0 f1 by (simp add: unsigned_of_int take_bit_nat_eq_self_iff nat_less_iff take_bit_int_eq_self)
  then show ?thesis using a f0 by (simp add: to_ubyte_def astype_int_def)
qed

subsection \<open>The square canvas\<close>

lemma square_canvas_eq:
  "square_canvas im =
     (let S = max (width im) (height im);
          cx = (S - width im) div 2; cy = (S - height im) div 2
      in \<lparr>width = S, height = S,
          pixels = RGBA (map (\<lambda>y. map (\<lambda>x.
                     if cx \<le> x \<and> x < cx + width im \<and> cy \<le> y \<and> y < cy + height im
                     then to_rgba (pixels im) ! (y - cy) ! (x - cx)
                     else (255, 255, 255, 0)) [0..<S]) [0..<S])\<rparr>)"
  by (simp add: square_canvas_def paste_def Image_new_def to_rgba_def Let_def
      cong: map_cong)

lemma grid_ok_table: "grid_ok w h (map (\<lambda>y. map (f y) [0..<w]) [0..<h])"
  by (simp add: grid_ok_def list_all_iff)

lemma valid_square_canvas: "valid_image (square_canvas im)"
  by (simp add: square_canvas_eq Let_def valid_image_def grid_ok_table)

lemma square_canvas_size:
  "width (square_canvas im) = max (width im) (height im)"
  "height (square_canvas im) = max (width im) (height im)"
  by (simp_all add: square_canvas_eq Let_def)

lemma square_canvas_RGBA: "\<exists>rows. pixels (square_canvas im) = RGBA rows"
  by (simp add: square_canvas_eq Let_def)


lemma getpixel_Image_new: "\<forall>y<S. \<forall>x<S. \<exists>r g b. getpixel (Image_new (S, S) (255, 255, 255, 0)) x y = (r, g, b, 0)"
    by (simp add: getpixel_def Image_new_def to_rgba_def)

lemma half_bias:
  fixes d :: nat
  shows "d div 2 \<le> d - d div 2 \<and> d - d div 2 \<le> d div 2 + 1"
proof -
  have "d = 2 * (d div 2) + d mod 2" by simp
  moreover have "d mod 2 < 2" by simp
  ultimately show ?thesis by linarith
qed

lemma getpixel_square_canvas:
  assumes "y < max (width im) (height im)" "x < max (width im) (height im)"
  shows "getpixel (square_canvas im) x y =
     (let S = max (width im) (height im);
          cx = (S - width im) div 2; cy = (S - height im) div 2
      in if cx \<le> x \<and> x < cx + width im \<and> cy \<le> y \<and> y < cy + height im
         then getpixel im (x - cx) (y - cy)
         else (255, 255, 255, 0))"
  using assms by (simp add: square_canvas_eq Let_def getpixel_def to_rgba_def)


text \<open>
  C7.  The canvas is a square of side \<open>S = max W H\<close>.  The fresh canvas has alpha 0
  everywhere.  After the paste, the pixel at \<open>(x, y)\<close> is the source pixel at
  \<open>(x - offsetX, y - offsetY)\<close> inside the pasted rectangle, with all four bytes of the
  source (its alpha included, 255 for a source without alpha channel), and the
  transparent canvas colour outside; the offsets are \<open>(S - W) div 2\<close> and
  \<open>(S - H) div 2\<close>, so the margin before the content is the smaller one when the
  difference is odd.
\<close>

theorem square_canvas_paste:
  "(let S = max (width im) (height im);
        offsetX = (S - width im) div 2; offsetY = (S - height im) div 2
    in width (square_canvas im) = S \<and> height (square_canvas im) = S \<and>
       valid_image (square_canvas im) \<and>
       (\<forall>y<S. \<forall>x<S. \<exists>r g b.
          getpixel (Image_new (S, S) (255, 255, 255, 0)) x y = (r, g, b, 0)) \<and>
       (\<forall>y<S. \<forall>x<S.
          getpixel (square_canvas im) x y =
            (if offsetX \<le> x \<and> x < offsetX + width im \<and>
                offsetY \<le> y \<and> y < offsetY + height im
             then getpixel im (x - offsetX) (y - offsetY)
             else (255, 255, 255, 0))) \<and>
       (\<forall>rows. pixels im = RGBA rows \<longrightarrow>
          (\<forall>y<height im. \<forall>x<width im.
             getpixel (square_canvas im) (offsetX + x) (offsetY + y) = rows ! y ! x)) \<and>
       offsetX + width im \<le> S \<and> offsetY + height im \<le> S \<and>
       offsetX \<le> S - width im - offsetX \<and> S - width im - offsetX \<le> offsetX + 1 \<and>
       offsetY \<le> S - height im - offsetY \<and> S - height im - offsetY \<le> offsetY + 1)"
proof -
  define S where "S = max (width im) (height im)"
  define offsetX where "offsetX = (S - width im) div 2"
  define offsetY where "offsetY = (S - height im) div 2"
  have new: "\<forall>y<S. \<forall>x<S. \<exists>r g b.
      getpixel (Image_new (S, S) (255, 255, 255, 0)) x y = (r, g, b, 0)"
    by (rule getpixel_Image_new)
  have px: "getpixel (square_canvas im) x y =
              (if offsetX \<le> x \<and> x < offsetX + width im \<and>
                  offsetY \<le> y \<and> y < offsetY + height im
               then getpixel im (x - offsetX) (y - offsetY)
               else (255, 255, 255, 0))" if "y < S" "x < S" for x y
    using that getpixel_square_canvas[of y im x]
    by (simp add: Let_def S_def offsetX_def offsetY_def)
  have wS: "width im \<le> S" and hS: "height im \<le> S" by (simp_all add: S_def)
  have wx: "offsetX + width im \<le> S"
    using wS half_bias[of "S - width im"] by (simp add: offsetX_def)
  have hy: "offsetY + height im \<le> S"
    using hS half_bias[of "S - height im"] by (simp add: offsetY_def)
  have src: "getpixel (square_canvas im) (offsetX + x) (offsetY + y) = rows ! y ! x"
    if r: "pixels im = RGBA rows" and y: "y < height im" and x: "x < width im" for rows x y
  proof -
    have "offsetY + y < S" "offsetX + x < S" using wx hy x y by simp_all
    then have "getpixel (square_canvas im) (offsetX + x) (offsetY + y) = getpixel im x y"
      using px[of "offsetY + y" "offsetX + x"] x y by simp
    then show ?thesis using r by (simp add: getpixel_def to_rgba_def)
  qed
  have bx: "offsetX \<le> S - width im - offsetX \<and> S - width im - offsetX \<le> offsetX + 1"
    unfolding offsetX_def by (rule half_bias)
  have by': "offsetY \<le> S - height im - offsetY \<and> S - height im - offsetY \<le> offsetY + 1"
    unfolding offsetY_def by (rule half_bias)
  have sz: "width (square_canvas im) = S" "height (square_canvas im) = S"
    by (simp_all add: square_canvas_size S_def)
  have "width (square_canvas im) = S \<and> height (square_canvas im) = S \<and>
       valid_image (square_canvas im) \<and>
       (\<forall>y<S. \<forall>x<S. \<exists>r g b.
          getpixel (Image_new (S, S) (255, 255, 255, 0)) x y = (r, g, b, 0)) \<and>
       (\<forall>y<S. \<forall>x<S.
          getpixel (square_canvas im) x y =
            (if offsetX \<le> x \<and> x < offsetX + width im \<and>
                offsetY \<le> y \<and> y < offsetY + height im
             then getpixel im (x - offsetX) (y - offsetY)
             else (255, 255, 255, 0))) \<and>
       (\<forall>rows. pixels im = RGBA rows \<longrightarrow>
          (\<forall>y<height im. \<forall>x<width im.
             getpixel (square_canvas im) (offsetX + x) (offsetY + y) = rows ! y ! x)) \<and>
       offsetX + width im \<le> S \<and> offsetY + height im \<le> S \<and>
       offsetX \<le> S - width im - offsetX \<and> S - width im - offsetX \<le> offsetX + 1 \<and>
       offsetY \<le> S - height im - offsetY \<and> S - height im - offsetY \<le> offsetY + 1"
    using sz valid_square_canvas[of im] new px src wx hy bx by' by (intro conjI allI impI) blast+
  then show ?thesis unfolding Let_def S_def offsetX_def offsetY_def .
qed

theorem square_canvas_paste_witness:
  "width (square_canvas tall_image) = 4 \<and> height (square_canvas tall_image) = 4 \<and>
   getpixel (square_canvas tall_image) 0 1 = (255, 255, 255, 0) \<and>
   getpixel (square_canvas tall_image) 1 1 = (4, 5, 6, 128) \<and>
   getpixel (square_canvas tall_image) 2 1 = (255, 255, 255, 0) \<and>
   getpixel (square_canvas tall_image) 3 1 = (255, 255, 255, 0)"
proof -
  have m: "max (width tall_image) (height tall_image) = 4"
    and w: "width tall_image = 1" and h: "height tall_image = 4"
    by (simp_all add: tall_image_def)
  note t = square_canvas_paste[of tall_image, unfolded Let_def m]
  from t have sz: "width (square_canvas tall_image) = 4 \<and> height (square_canvas tall_image) = 4"
    by blast
  from t have px: "\<forall>y<4. \<forall>x<4.
          getpixel (square_canvas tall_image) x y =
            (if (4 - width tall_image) div 2 \<le> x \<and>
                x < (4 - width tall_image) div 2 + width tall_image \<and>
                (4 - height tall_image) div 2 \<le> y \<and>
                y < (4 - height tall_image) div 2 + height tall_image
             then getpixel tall_image (x - (4 - width tall_image) div 2)
                    (y - (4 - height tall_image) div 2)
             else (255, 255, 255, 0))"
    by blast
  have g: "getpixel tall_image 0 1 = (4, 5, 6, 128)"
    by (simp add: tall_image_def getpixel_def to_rgba_def)
  have "getpixel (square_canvas tall_image) 0 1 = (255, 255, 255, 0)"
    "getpixel (square_canvas tall_image) 1 1 = (4, 5, 6, 128)"
    "getpixel (square_canvas tall_image) 2 1 = (255, 255, 255, 0)"
    "getpixel (square_canvas tall_image) 3 1 = (255, 255, 255, 0)"
    using px[rule_format, of 1 0] px[rule_format, of 1 1] px[rule_format, of 1 2]
      px[rule_format, of 1 3] g
    by (simp_all add: w h)
  with sz show ?thesis by blast
qed

subsection \<open>Resizing\<close>

lemma resize_same:
  "int (width im) = d \<Longrightarrow> int (height im) = d \<Longrightarrow> resize filt im (d, d) = Inr im"
  by (simp add: resize_def)

lemma resize_other:
  assumes "pixels im = RGBA rows" "1 \<le> d" "\<not> (int (width im) = d \<and> int (height im) = d)"
  shows "resize filt im (d, d) =
           Inr \<lparr>width = nat d, height = nat d,
                 pixels = RGBA (map (\<lambda>y. map (\<lambda>x. filt rows (nat d, nat d) x y)
                                  [0..<nat d]) [0..<nat d])\<rparr>"
  using assms by (auto simp: resize_def to_rgba_def Let_def)

lemma resize_invalid:
  assumes "d < 1" "0 < width im \<or> 0 < height im"
  shows "resize filt im (d, d) = Inl ValueError"
  using assms by (auto simp: resize_def Let_def)

lemma resize_square_canvas:
  assumes "0 \<le> d" "d \<le> int (max (width im) (height im))"
    and "d = 0 \<longrightarrow> max (width im) (height im) = 0"
  shows "\<exists>out rows. resize filt (square_canvas im) (d, d) = Inr out \<and>
           width out = nat d \<and> height out = nat d \<and> pixels out = RGBA rows \<and>
           valid_image out"
proof (cases "int (max (width im) (height im)) = d")
  case True
  then have "resize filt (square_canvas im) (d, d) = Inr (square_canvas im)"
    by (intro resize_same) (simp_all add: square_canvas_size)
  moreover have "width (square_canvas im) = nat d" "height (square_canvas im) = nat d"
    using True by (auto simp: square_canvas_size)
  ultimately show ?thesis
    using valid_square_canvas[of im] square_canvas_RGBA[of im] by auto
next
  case False
  with assms have d: "1 \<le> d" by (cases "d = 0") auto
  obtain rows where r: "pixels (square_canvas im) = RGBA rows"
    using square_canvas_RGBA by blast
  have n: "\<not> (int (width (square_canvas im)) = d \<and> int (height (square_canvas im)) = d)"
    using False by (simp add: square_canvas_size)
  show ?thesis
    unfolding resize_other[OF r d n]
    by (simp add: valid_image_def grid_ok_table)
qed

subsection \<open>The size of the result\<close>

lemma squarify_image_result:
  "snd (squarify_image filt im st) =
     resize filt (square_canvas im)
       (min (size_spinner_value st) (int (max (width im) (height im))),
        min (size_spinner_value st) (int (max (width im) (height im))))"
  by (simp add: squarify_image_def Let_def min_def)

lemma squarify_image_spinner:
  "size_spinner_value (fst (squarify_image filt im st)) =
     min (size_spinner_value st) (int (max (width im) (height im)))"
  by (simp add: squarify_image_def Let_def min_def)

text \<open>
  C5.  For a positive requested size, \<^verbatim>\<open>squarify_image\<close> returns a square image
  whose side is the effective size: the requested size when that is at most
  \<open>max W H\<close>, and \<open>max W H\<close> otherwise.  The effective size never exceeds \<open>max W H\<close>,
  and the spinner holds it after the call.
\<close>

theorem squarify_image_size:
  assumes "0 < size_spinner_value st"
  shows "\<exists>st' out.
           squarify_image filt im st = (st', Inr out) \<and>
           (let S = int (max (width im) (height im));
                effectiveSize = (if size_spinner_value st \<le> S then size_spinner_value st else S)
            in int (width out) = effectiveSize \<and> int (height out) = effectiveSize \<and>
               valid_image out \<and> effectiveSize \<le> S \<and>
               size_spinner_value st' = effectiveSize)"
proof -
  define S where "S = int (max (width im) (height im))"
  define e where "e = (if size_spinner_value st \<le> S then size_spinner_value st else S)"
  have em: "e = min (size_spinner_value st) S" by (simp add: e_def min_def)
  have e0: "0 \<le> e" and eS: "e \<le> S" and ez: "e = 0 \<longrightarrow> max (width im) (height im) = 0"
    using assms by (auto simp: e_def S_def)
  obtain out rows where r: "resize filt (square_canvas im) (e, e) = Inr out"
    and o: "width out = nat e" "height out = nat e" "valid_image out"
    using resize_square_canvas[OF e0 eS[unfolded S_def] ez] by blast
  have "snd (squarify_image filt im st) = Inr out"
    using r by (simp add: squarify_image_result em S_def)
  moreover have "size_spinner_value (fst (squarify_image filt im st)) = e"
    by (simp add: squarify_image_spinner em S_def)
  ultimately have "squarify_image filt im st = (fst (squarify_image filt im st), Inr out) \<and>
      int (width out) = e \<and> int (height out) = e \<and> valid_image out \<and> e \<le> S \<and>
      size_spinner_value (fst (squarify_image filt im st)) = e"
    using o e0 eS by (simp add: prod_eq_iff)
  then show ?thesis unfolding Let_def e_def S_def by blast
qed

theorem squarify_image_size_witness:
  "0 < size_spinner_value initial_widgets \<and> 0 < size_spinner_value unit_size \<and>
   (\<exists>st' out. squarify_image nearest white_black initial_widgets = (st', Inr out) \<and>
      width out = 2 \<and> height out = 2 \<and> size_spinner_value st' = 2) \<and>
   (\<exists>st' out. squarify_image nearest white_black unit_size = (st', Inr out) \<and>
      width out = 1 \<and> height out = 1 \<and> size_spinner_value st' = 1)"
proof -
  have a: "0 < size_spinner_value initial_widgets" and b: "0 < size_spinner_value unit_size"
    by (simp_all add: initial_widgets_def unit_size_def)
  have s: "size_spinner_value initial_widgets = 500" "size_spinner_value unit_size = 1"
    "int (max (width white_black) (height white_black)) = 2"
    by (simp_all add: initial_widgets_def unit_size_def white_black_def)
  note t1 = squarify_image_size[OF a, of nearest white_black, unfolded Let_def s]
  note t2 = squarify_image_size[OF b, of nearest white_black, unfolded Let_def s]
  have "\<exists>st' out. squarify_image nearest white_black initial_widgets = (st', Inr out) \<and>
      width out = 2 \<and> height out = 2 \<and> size_spinner_value st' = 2"
    using t1 by auto
  moreover have "\<exists>st' out. squarify_image nearest white_black unit_size = (st', Inr out) \<and>
      width out = 1 \<and> height out = 1 \<and> size_spinner_value st' = 1"
    using t2 by auto
  ultimately show ?thesis using a b by blast
qed

subsection \<open>Squarifying a square\<close>

lemma table_nth:
  assumes "grid_ok n n rows"
  shows "map (\<lambda>y. map (\<lambda>x. rows ! y ! x) [0..<n]) [0..<n] = rows"
proof -
  have len: "length rows = n" using assms by (simp add: grid_ok_def)
  have "map (\<lambda>x. rows ! y ! x) [0..<n] = rows ! y" if "y < n" for y
    using grid_ok_nth[OF assms that] map_nth[of "rows ! y"] by simp
  then have "map (\<lambda>y. map (\<lambda>x. rows ! y ! x) [0..<n]) [0..<n] = map (\<lambda>y. rows ! y) [0..<n]"
    by simp
  also have "\<dots> = rows" using len map_nth[of rows] by simp
  finally show ?thesis .
qed

lemma square_canvas_square:
  assumes "valid_image im" "width im = height im" "pixels im = RGBA rows"
  shows "square_canvas im = im"
proof -
  define n where "n = height im"
  have g: "grid_ok n n rows" using assms by (simp add: valid_image_def n_def)
  have "square_canvas im =
      \<lparr>width = n, height = n,
       pixels = RGBA (map (\<lambda>y. map (\<lambda>x. rows ! y ! x) [0..<n]) [0..<n])\<rparr>"
    using assms(2,3) by (simp add: square_canvas_eq Let_def to_rgba_def n_def cong: map_cong)
  also have "\<dots> = \<lparr>width = n, height = n, pixels = RGBA rows\<rparr>"
    by (simp add: table_nth[OF g])
  also have "\<dots> = im" using assms(2,3) by (simp add: n_def)
  finally show ?thesis .
qed

text \<open>
  C9.  When \<^verbatim>\<open>squarify_image\<close> has returned an image for a positive requested size,
  squarifying that image again at the same effective size (the value the spinner holds
  after the first call) returns it unchanged: the image is its own square canvas, the
  paste offset is (0, 0), and the resize keeps the size.
\<close>

theorem squarify_image_idempotent:
  assumes "0 < size_spinner_value st"
    and "squarify_image filt im st = (st1, Inr out)"
    and "size_spinner_value st2 = size_spinner_value st1"
  shows "snd (squarify_image filt out st2) = Inr out \<and>
         size_spinner_value (fst (squarify_image filt out st2)) = size_spinner_value st1 \<and>
         square_canvas out = out \<and>
         (max (width out) (height out) - width out) div 2 = 0 \<and>
         (max (width out) (height out) - height out) div 2 = 0"
proof -
  define S where "S = int (max (width im) (height im))"
  define e where "e = min (size_spinner_value st) S"
  have e0: "0 \<le> e" and eS: "e \<le> S" and ez: "e = 0 \<longrightarrow> max (width im) (height im) = 0"
    using assms(1) by (auto simp: e_def S_def min_def)
  obtain out' rows where r: "resize filt (square_canvas im) (e, e) = Inr out'"
    and o: "width out' = nat e" "height out' = nat e" "pixels out' = RGBA rows" "valid_image out'"
    using resize_square_canvas[OF e0 eS[unfolded S_def] ez] by blast
  have "snd (squarify_image filt im st) = Inr out'"
    using r by (simp add: squarify_image_result e_def S_def)
  with assms(2) have oo: "out' = out" by simp
  have sp: "size_spinner_value st1 = e"
    using squarify_image_spinner[of filt im st] assms(2) by (simp add: e_def S_def)
  have sq: "square_canvas out = out"
    using o by (intro square_canvas_square[of out rows]) (simp_all add: oo[symmetric])
  have m: "int (max (width out) (height out)) = e"
    using o e0 by (simp add: oo[symmetric])
  have "resize filt out (e, e) = Inr out"
    using o e0 by (intro resize_same) (simp_all add: oo[symmetric])
  then have a: "snd (squarify_image filt out st2) = Inr out"
    by (simp add: squarify_image_result sq m assms(3) sp)
  have b: "size_spinner_value (fst (squarify_image filt out st2)) = size_spinner_value st1"
    by (simp add: squarify_image_spinner m assms(3) sp)
  have c: "(max (width out) (height out) - width out) div 2 = 0"
    "(max (width out) (height out) - height out) div 2 = 0"
    using o by (simp_all add: oo[symmetric])
  from a b sq c show ?thesis by blast
qed

lemma squarify_white_black:
  "squarify_image nearest white_black initial_widgets =
     (initial_widgets\<lparr>input_card_title := ''Input resolution: 2x1'',
        max_static_text_value := Number 2, size_spinner_value := 2,
        output_card_title := ''Output resolution: 2x2''\<rparr>,
      Inr \<lparr>width = 2, height = 2,
           pixels = RGBA [[(255, 255, 255, 255), (0, 0, 0, 255)],
                          [(255, 255, 255, 0), (255, 255, 255, 0)]]\<rparr>)"
  by code_simp

theorem squarify_image_idempotent_witness:
  "0 < size_spinner_value initial_widgets \<and>
   squarify_image nearest white_black initial_widgets =
     (initial_widgets\<lparr>input_card_title := ''Input resolution: 2x1'',
        max_static_text_value := Number 2, size_spinner_value := 2,
        output_card_title := ''Output resolution: 2x2''\<rparr>,
      Inr \<lparr>width = 2, height = 2,
           pixels = RGBA [[(255, 255, 255, 255), (0, 0, 0, 255)],
                          [(255, 255, 255, 0), (255, 255, 255, 0)]]\<rparr>) \<and>
   snd (squarify_image nearest
          \<lparr>width = 2, height = 2,
           pixels = RGBA [[(255, 255, 255, 255), (0, 0, 0, 255)],
                          [(255, 255, 255, 0), (255, 255, 255, 0)]]\<rparr>
          (initial_widgets\<lparr>input_card_title := ''Input resolution: 2x1'',
             max_static_text_value := Number 2, size_spinner_value := 2,
             output_card_title := ''Output resolution: 2x2''\<rparr>)) =
     Inr \<lparr>width = 2, height = 2,
          pixels = RGBA [[(255, 255, 255, 255), (0, 0, 0, 255)],
                         [(255, 255, 255, 0), (255, 255, 255, 0)]]\<rparr>"
proof -
  have a: "0 < size_spinner_value initial_widgets" by (simp add: initial_widgets_def)
  from squarify_image_idempotent[OF a squarify_white_black refl] a squarify_white_black
  show ?thesis by blast
qed

subsection \<open>A requested size that is not positive\<close>

lemma squarify_image_state:
  "fst (squarify_image filt im st) =
     st\<lparr>input_card_title :=
          ''Input resolution: '' @ str_nat (width im) @ ''x'' @ str_nat (height im),
        max_static_text_value := Number (int (max (width im) (height im))),
        size_spinner_value := min (size_spinner_value st) (int (max (width im) (height im))),
        output_card_title :=
          ''Output resolution: '' @
          str_int (min (size_spinner_value st) (int (max (width im) (height im)))) @ ''x'' @
          str_int (min (size_spinner_value st) (int (max (width im) (height im))))\<rparr>"
  by (rule widgets.equality) (simp_all add: squarify_image_def Let_def min_def)

lemma squarify_image_invalid_size:
  assumes "size_spinner_value st \<le> 0" "0 < width im \<or> 0 < height im"
  shows "squarify_image filt im st =
           (st\<lparr>input_card_title :=
                ''Input resolution: '' @ str_nat (width im) @ ''x'' @ str_nat (height im),
              max_static_text_value := Number (int (max (width im) (height im))),
              output_card_title :=
                ''Output resolution: '' @ str_int (size_spinner_value st) @ ''x'' @
                str_int (size_spinner_value st)\<rparr>,
            Inl ValueError)"
proof -
  have m: "min (size_spinner_value st) (int (max (width im) (height im))) = size_spinner_value st"
    using assms(1) by simp
  have "0 < width (square_canvas im) \<or> 0 < height (square_canvas im)"
    using assms(2) by (auto simp: square_canvas_size)
  then have "resize filt (square_canvas im) (size_spinner_value st, size_spinner_value st) =
      Inl ValueError"
    using assms(1) by (intro resize_invalid) simp_all
  then have "snd (squarify_image filt im st) = Inl ValueError"
    by (simp add: squarify_image_result m)
  moreover have "fst (squarify_image filt im st) =
      st\<lparr>input_card_title :=
                ''Input resolution: '' @ str_nat (width im) @ ''x'' @ str_nat (height im),
              max_static_text_value := Number (int (max (width im) (height im))),
              output_card_title :=
                ''Output resolution: '' @ str_int (size_spinner_value st) @ ''x'' @
                str_int (size_spinner_value st)\<rparr>"
    unfolding squarify_image_state m by (rule widgets.equality) simp_all
  ultimately show ?thesis by (simp add: prod_eq_iff)
qed

text \<open>
  C8, as the code has it.  \<^verbatim>\<open>squarify_image\<close> has no check of the requested size.
  With a size that is not positive it writes both card titles and the static text,
  leaves the spinner as it is, builds the canvas, and fails only in the final
  \<^verbatim>\<open>resize\<close>, with the library's \<^verbatim>\<open>ValueError\<close>; no image is returned.
\<close>

theorem squarify_image_nonpositive_size:
  assumes "size_spinner_value st \<le> 0" "0 < width im \<or> 0 < height im"
  shows "squarify_image filt im st =
           (st\<lparr>input_card_title :=
                ''Input resolution: '' @ str_nat (width im) @ ''x'' @ str_nat (height im),
              max_static_text_value := Number (int (max (width im) (height im))),
              output_card_title :=
                ''Output resolution: '' @ str_int (size_spinner_value st) @ ''x'' @
                str_int (size_spinner_value st)\<rparr>,
            Inl ValueError) \<and>
         size_spinner_value (fst (squarify_image filt im st)) = size_spinner_value st \<and>
         resize filt (square_canvas im) (size_spinner_value st, size_spinner_value st) =
           Inl ValueError"
proof -
  note a = squarify_image_invalid_size[OF assms, of filt]
  have "snd (squarify_image filt im st) = Inl ValueError" by (simp add: a)
  then have "resize filt (square_canvas im) (size_spinner_value st, size_spinner_value st) =
      Inl ValueError"
    using assms(1) by (simp add: squarify_image_result)
  moreover have "size_spinner_value (fst (squarify_image filt im st)) = size_spinner_value st"
    by (simp add: a)
  ultimately show ?thesis using a by blast
qed

theorem squarify_image_nonpositive_size_witness:
  "size_spinner_value zero_size \<le> 0 \<and> (0 < width white_black \<or> 0 < height white_black) \<and>
   snd (squarify_image nearest white_black zero_size) = Inl ValueError \<and>
   size_spinner_value (fst (squarify_image nearest white_black zero_size)) = 0"
proof -
  have a: "size_spinner_value zero_size \<le> 0"
    and z: "size_spinner_value zero_size = 0"
    by (simp_all add: zero_size_def)
  have b: "0 < width white_black \<or> 0 < height white_black" by (simp add: white_black_def)
  from squarify_image_nonpositive_size[OF a b, of nearest] a b z show ?thesis by simp
qed

text \<open>
  C8, as the specification has it, fails on the code: with the spinner at 0 the call
  has already rewritten the titles and the static text when it fails, and the failure
  is the \<^verbatim>\<open>ValueError\<close> of \<^verbatim>\<open>resize\<close>, not a check of the parameter.
\<close>

theorem squarify_image_zero_size:
  "squarify_image nearest white_black zero_size =
     (zero_size\<lparr>input_card_title := ''Input resolution: 2x1'',
        max_static_text_value := Number 2,
        output_card_title := ''Output resolution: 0x0''\<rparr>,
      Inl ValueError) \<and>
   input_card_title zero_size = ''Input resolution: N/A'' \<and>
   output_card_title zero_size = ''Output resolution: N/A'' \<and>
   max_static_text_value zero_size = Text ''N/A''"
  by code_simp

subsection \<open>The widgets read and written\<close>

lemma squarify_image_reads:
  assumes "size_spinner_value st2 = size_spinner_value st"
  shows "snd (squarify_image filt im st2) = snd (squarify_image filt im st)"
  using assms by (simp add: squarify_image_result)

lemma detect_color_state:
  assumes "detect_color arr st = Inr st1"
  shows "st1 = st\<lparr>color_picker_value := color_picker_value st1,
                  notifications := notifications st1\<rparr>"
  using assms
  by (auto simp: detect_color_def Let_def split: list.splits prod.splits)

lemma detect_color_reads:
  "map_sum id color_picker_value (detect_color arr st2) =
   map_sum id color_picker_value (detect_color arr st)"
  by (simp add: detect_color_def Let_def split: list.splits prod.splits)

lemma add_transparency_state:
  "\<exists>c n. fst (add_transparency im st) = st\<lparr>color_picker_value := c, notifications := n\<rparr>"
proof (cases "widget_value (detect_checkbox st)")
  case False
  have "fst (add_transparency im st) = st"
    using False by (simp add: add_transparency_def Let_def split: sum.splits prod.splits)
  then have "fst (add_transparency im st) =
      st\<lparr>color_picker_value := color_picker_value st, notifications := notifications st\<rparr>"
    by simp
  then show ?thesis by blast
next
  case True
  show ?thesis
  proof (cases "detect_color (np_array_RGBA im) st")
    case (Inl e)
    then have "fst (add_transparency im st) = st"
      using True by (simp add: add_transparency_def)
    then have "fst (add_transparency im st) =
      st\<lparr>color_picker_value := color_picker_value st, notifications := notifications st\<rparr>"
      by simp
    then show ?thesis by blast
  next
    case (Inr st1)
    then have "fst (add_transparency im st) = st1"
      using True by (simp add: add_transparency_def Let_def split: sum.splits prod.splits)
    with detect_color_state[OF Inr] show ?thesis by metis
  qed
qed

lemma add_transparency_no_detect_state:
  "\<not> widget_value (detect_checkbox st) \<Longrightarrow> fst (add_transparency im st) = st"
  by (simp add: add_transparency_def Let_def split: sum.splits prod.splits)

lemma add_transparency_reads:
  assumes "widget_value (detect_checkbox st2) = widget_value (detect_checkbox st)"
    and "color_picker_value st2 = color_picker_value st"
  shows "snd (add_transparency im st2) = snd (add_transparency im st)"
proof (cases "widget_value (detect_checkbox st)")
  case False
  then show ?thesis
    using assms by (simp add: add_transparency_def Let_def truth_def split: sum.splits prod.splits)
next
  case True
  have d: "map_sum id color_picker_value (detect_color (np_array_RGBA im) st2) =
      map_sum id color_picker_value (detect_color (np_array_RGBA im) st)"
    by (rule detect_color_reads)
  show ?thesis
  proof (cases "detect_color (np_array_RGBA im) st")
    case (Inl e)
    with d have "detect_color (np_array_RGBA im) st2 = Inl e"
      by (cases "detect_color (np_array_RGBA im) st2") simp_all
    with Inl True assms(1) show ?thesis by (simp add: add_transparency_def)
  next
    case (Inr st1)
    with d obtain st1' where i: "detect_color (np_array_RGBA im) st2 = Inr st1'"
      and c: "color_picker_value st1' = color_picker_value st1"
      by (cases "detect_color (np_array_RGBA im) st2") simp_all
    show ?thesis
      using Inr i c True assms(1)
      by (simp add: add_transparency_def Let_def truth_def split: sum.splits prod.splits)
  qed
qed


text \<open>
  C4, as the code has it.  The two functions work on the module's widgets.
  \<^verbatim>\<open>squarify_image\<close> reads the spinner and writes the two card titles, the static
  text and (when it clamps) the spinner; \<^verbatim>\<open>add_transparency\<close> reads the detect box
  and the colour picker and, when detecting, writes the colour picker and posts a
  notification.  No other widget changes, and the returned image or error depends on
  the image and on the values read only.
\<close>

theorem widgets_read_and_written:
  "fst (squarify_image filt im st) =
     st\<lparr>input_card_title :=
          ''Input resolution: '' @ str_nat (width im) @ ''x'' @ str_nat (height im),
        max_static_text_value := Number (int (max (width im) (height im))),
        size_spinner_value := min (size_spinner_value st) (int (max (width im) (height im))),
        output_card_title :=
          ''Output resolution: '' @
          str_int (min (size_spinner_value st) (int (max (width im) (height im)))) @ ''x'' @
          str_int (min (size_spinner_value st) (int (max (width im) (height im))))\<rparr> \<and>
   (size_spinner_value st2 = size_spinner_value st \<longrightarrow>
      snd (squarify_image filt im st2) = snd (squarify_image filt im st)) \<and>
   (\<exists>c n. fst (add_transparency im st) = st\<lparr>color_picker_value := c, notifications := n\<rparr>) \<and>
   (\<not> widget_value (detect_checkbox st) \<longrightarrow> fst (add_transparency im st) = st) \<and>
   (widget_value (detect_checkbox st2) = widget_value (detect_checkbox st) \<and>
    color_picker_value st2 = color_picker_value st \<longrightarrow>
      snd (add_transparency im st2) = snd (add_transparency im st))"
  using squarify_image_state[of filt im st] squarify_image_reads[of st2 st filt im]
    add_transparency_state[of im st] add_transparency_no_detect_state[of st im]
    add_transparency_reads[of st2 st im]
  by blast

theorem widgets_read_and_written_witness:
  "size_spinner_value (match_checked\<lparr>color_picker_value := ''#000000''\<rparr>) =
     size_spinner_value initial_widgets \<and>
   snd (squarify_image nearest white_black (match_checked\<lparr>color_picker_value := ''#000000''\<rparr>)) =
     snd (squarify_image nearest white_black initial_widgets) \<and>
   \<not> widget_value (detect_checkbox initial_widgets) \<and>
   fst (add_transparency white_black initial_widgets) = initial_widgets \<and>
   widget_value (detect_checkbox match_checked) = widget_value (detect_checkbox initial_widgets) \<and>
   color_picker_value match_checked = color_picker_value initial_widgets \<and>
   snd (add_transparency white_black match_checked) =
     snd (add_transparency white_black initial_widgets)"
proof -
  have a: "size_spinner_value (match_checked\<lparr>color_picker_value := ''#000000''\<rparr>) =
     size_spinner_value initial_widgets"
    and b: "\<not> widget_value (detect_checkbox initial_widgets)"
    and c: "widget_value (detect_checkbox match_checked) =
       widget_value (detect_checkbox initial_widgets)"
    and d: "color_picker_value match_checked = color_picker_value initial_widgets"
    by (simp_all add: match_checked_def initial_widgets_def)
  from widgets_read_and_written[of nearest white_black initial_widgets
      "match_checked\<lparr>color_picker_value := ''#000000''\<rparr>"]
    widgets_read_and_written[of nearest white_black initial_widgets match_checked]
    a b c d
  show ?thesis by blast
qed

text \<open>
  C4, as the specification has it, fails on the code: a call leaves its traces in the
  widgets, and the next call reads them.  Squarifying the 2\<times>1 image sets the spinner
  from 500 to 2; the 3\<times>3 image squarified after it comes out 2\<times>2, where the same call
  on the initial widgets returns it 3\<times>3.  Detecting a colour overwrites the colour
  picker.
\<close>

theorem widgets_persist:
  "size_spinner_value initial_widgets = 500 \<and>
   size_spinner_value (fst (squarify_image nearest white_black initial_widgets)) = 2 \<and>
   snd (squarify_image nearest plain_square initial_widgets) =
      Inr \<lparr>width = 3, height = 3,
           pixels = RGBA [[(9, 9, 9, 255), (9, 9, 9, 255), (9, 9, 9, 255)],
                          [(9, 9, 9, 255), (9, 9, 9, 255), (9, 9, 9, 255)],
                          [(9, 9, 9, 255), (9, 9, 9, 255), (9, 9, 9, 255)]]\<rparr> \<and>
   snd (squarify_image nearest plain_square
          (fst (squarify_image nearest white_black initial_widgets))) =
      Inr \<lparr>width = 2, height = 2,
           pixels = RGBA [[(9, 9, 9, 255), (9, 9, 9, 255)],
                          [(9, 9, 9, 255), (9, 9, 9, 255)]]\<rparr> \<and>
   color_picker_value detect_checked = ''#FFFFFF'' \<and>
   color_picker_value (fst (add_transparency corner_image detect_checked)) = ''#0a141e''"
proof -
  have a: "size_spinner_value initial_widgets = 500 \<and>
   size_spinner_value (fst (squarify_image nearest white_black initial_widgets)) = 2 \<and>
   snd (squarify_image nearest plain_square initial_widgets) =
      Inr \<lparr>width = 3, height = 3,
           pixels = RGBA [[(9, 9, 9, 255), (9, 9, 9, 255), (9, 9, 9, 255)],
                          [(9, 9, 9, 255), (9, 9, 9, 255), (9, 9, 9, 255)],
                          [(9, 9, 9, 255), (9, 9, 9, 255), (9, 9, 9, 255)]]\<rparr> \<and>
   snd (squarify_image nearest plain_square
          (fst (squarify_image nearest white_black initial_widgets))) =
      Inr \<lparr>width = 2, height = 2,
           pixels = RGBA [[(9, 9, 9, 255), (9, 9, 9, 255)],
                          [(9, 9, 9, 255), (9, 9, 9, 255)]]\<rparr> \<and>
   color_picker_value detect_checked = ''#FFFFFF''"
    by code_simp
  have m: "widget_value (detect_checkbox detect_checked)" by (simp add: detect_checked_def)
  have f: "to_rgba (pixels corner_image) =
      ((10, 20, 30, 128) # [(200, 200, 200, 255)]) # []"
    by (simp add: corner_image_def to_rgba_def)
  obtain st1 where "add_transparency corner_image detect_checked =
      (st1, Inr \<lparr>width = width corner_image, height = height corner_image,
                 pixels = RGBA (map (map (exact_keyed_pixel (unat (10::ubyte), unat (20::ubyte), unat (30::ubyte))))
                                 (to_rgba (pixels corner_image)))\<rparr>)"
    and d: "detect_color (np_array_RGBA corner_image) detect_checked = Inr st1"
    using add_transparency_detect[OF m f] by blast
  then have "color_picker_value (fst (add_transparency corner_image detect_checked)) =
      color_picker_value st1" by simp
  also have "\<dots> = ''#'' @ format_02x (uint (10::ubyte)) @ format_02x (uint (20::ubyte)) @
      format_02x (uint (30::ubyte))"
    using detect_color_first[OF f, of detect_checked] d by auto
  also have "\<dots> = ''#0a141e''" by (simp add: format_02x_examples)
  finally show ?thesis using a by blast
qed

subsection \<open>Images without an alpha channel\<close>

lemma grid_ok_nth2:
  assumes "grid_ok w h rows" "y < h" "x < w"
  shows "y < length rows \<and> x < length (rows ! y)"
  using assms grid_ok_nth[OF assms(1,2)] by (simp add: grid_ok_def)

lemma getpixel_opaque:
  assumes "\<not> has_alpha_channel (pixels im)" "\<not> transparency_info (pixels im)"
    and "valid_image im" "y < height im" "x < width im"
  shows "\<exists>r g b. getpixel im x y = (r, g, b, 255)"
proof (cases "pixels im")
  case (Bilevel rows t)
  then have "grid_ok (width im) (height im) rows"
    using assms(3) by (simp add: valid_image_def)
  moreover have "t = None"
    using assms(2) Bilevel by (cases t) (simp_all add: transparency_info_def)
  ultimately have "grid_ok (width im) (height im) rows" and "t = None" by simp_all
  then show ?thesis
    using grid_ok_nth2[OF _ assms(4,5), of rows] Bilevel
    by (simp add: getpixel_def to_rgba_def keyed_alpha_def Let_def)
next
  case (L rows t)
  then have "grid_ok (width im) (height im) rows"
    using assms(3) by (simp add: valid_image_def)
  moreover have "t = None"
    using assms(2) L by (cases t) (simp_all add: transparency_info_def)
  ultimately have "grid_ok (width im) (height im) rows" and "t = None" by simp_all
  then show ?thesis
    using grid_ok_nth2[OF _ assms(4,5), of rows] L
    by (simp add: getpixel_def to_rgba_def keyed_alpha_def)
next
  case (LA rows)
  then show ?thesis using assms(1) by (simp add: has_alpha_channel_def)
next
  case (P rows palette t)
  then have "grid_ok (width im) (height im) rows"
    using assms(3) by (simp add: valid_image_def)
  moreover have "t = None"
    using assms(2) P by (cases t) (simp_all add: transparency_info_def)
  ultimately have "grid_ok (width im) (height im) rows" and "t = None" by simp_all
  then show ?thesis
    using grid_ok_nth2[OF _ assms(4,5), of rows] P
    by (simp add: getpixel_def to_rgba_def palette_alpha_def split: prod.splits)
next
  case (RGB rows t)
  then have "grid_ok (width im) (height im) rows"
    using assms(3) by (simp add: valid_image_def)
  moreover have "t = None"
    using assms(2) RGB by (cases t) (simp_all add: transparency_info_def)
  ultimately have "grid_ok (width im) (height im) rows" and "t = None" by simp_all
  then show ?thesis
    using grid_ok_nth2[OF _ assms(4,5), of rows] RGB
    by (simp add: getpixel_def to_rgba_def keyed_alpha_def split: prod.splits)
next
  case (RGBA rows)
  then show ?thesis using assms(1) by (simp add: has_alpha_channel_def)
qed

text \<open>
  C10, as the code has it.  The colour keyer works on the image converted to
  \<^verbatim>\<open>RGBA\<close>.  An image without an alpha channel and without a transparency entry has
  alpha 255 on every pixel after the conversion, so no pixel is already transparent,
  and the alpha of every pixel of the result is 0 or 255 according to the colour match
  alone.
\<close>

theorem add_transparency_no_alpha_channel:
  assumes "\<not> has_alpha_channel (pixels im)" "\<not> transparency_info (pixels im)"
    and "valid_image im" "0 < width im" "0 < height im"
    and "widget_value (detect_checkbox st) \<or> (\<exists>c. getrgb (color_picker_value st) = Inr c)"
  shows "pixels (convert_RGBA im) = RGBA (to_rgba (pixels im)) \<and>
         np_array_RGBA im =
           map (map (\<lambda>(r, g, b, a). (normalized r, normalized g, normalized b, normalized a)))
             (to_rgba (pixels im)) \<and>
         (\<exists>st' out used.
            add_transparency im st = (st', Inr out) \<and>
            getrgb (color_picker_value st') = Inr used \<and>
            (\<forall>y<height im. \<forall>x<width im. \<exists>r g b.
               getpixel im x y = (r, g, b, 255) \<and>
               getpixel out x y =
                 (r, g, b, if (unat r, unat g, unat b) = used then 0 else 255)))"
proof -
  have c: "pixels (convert_RGBA im) = RGBA (to_rgba (pixels im))"
    by (simp add: convert_RGBA_def)
  have n: "np_array_RGBA im =
           map (map (\<lambda>(r, g, b, a). (normalized r, normalized g, normalized b, normalized a)))
             (to_rgba (pixels im))"
    by (simp add: np_array_RGBA_def to_rgba_convert)
  let ?out = "\<lambda>used. \<lparr>width = width im, height = height im,
      pixels = RGBA (map (map (exact_keyed_pixel used)) (to_rgba (pixels im)))\<rparr>"
  obtain st' used where a: "add_transparency im st = (st', Inr (?out used))"
    and u: "getrgb (color_picker_value st') = Inr used"
    using add_transparency_keyed[OF assms(3-6)] by blast
  have "\<exists>r g b. getpixel im x y = (r, g, b, 255) \<and>
          getpixel (?out used) x y =
            (r, g, b, if (unat r, unat g, unat b) = used then 0 else 255)"
    if yx: "y < height im" "x < width im" for x y
  proof -
    obtain r g b where p: "getpixel im x y = (r, g, b, 255)"
      using getpixel_opaque[OF assms(1-3) yx] by blast
    have "getpixel (?out used) x y = exact_keyed_pixel used (getpixel im x y)"
      using assms(3) yx by (simp add: getpixel_map)
    then show ?thesis using p by (simp add: exact_keyed_pixel_def)
  qed
  with c n a u show ?thesis by blast
qed

lemma valid_white_black_rgb: "valid_image white_black_rgb"
  by (simp add: white_black_rgb_def valid_image_def grid_ok_def)

theorem add_transparency_no_alpha_channel_witness:
  "\<not> has_alpha_channel (pixels white_black_rgb) \<and>
   \<not> transparency_info (pixels white_black_rgb) \<and>
   valid_image white_black_rgb \<and> 0 < width white_black_rgb \<and> 0 < height white_black_rgb \<and>
   getrgb (color_picker_value initial_widgets) = Inr (255, 255, 255) \<and>
   (\<exists>st' out. add_transparency white_black_rgb initial_widgets = (st', Inr out) \<and>
      getpixel white_black_rgb 0 0 = (255, 255, 255, 255) \<and>
      getpixel white_black_rgb 1 0 = (0, 0, 0, 255) \<and>
      getpixel out 0 0 = (255, 255, 255, 0) \<and> getpixel out 1 0 = (0, 0, 0, 255))"
proof -
  have na: "\<not> has_alpha_channel (pixels white_black_rgb)"
    and nt: "\<not> transparency_info (pixels white_black_rgb)"
    by (simp_all add: white_black_rgb_def has_alpha_channel_def transparency_info_def)
  have c: "getrgb (color_picker_value initial_widgets) = Inr (255, 255, 255)"
    by (simp add: initial_widgets_def getrgb_white)
  have d: "\<not> widget_value (detect_checkbox initial_widgets)"
    by (simp add: initial_widgets_def)
  have w: "0 < width white_black_rgb" and h: "0 < height white_black_rgb"
    by (simp_all add: white_black_rgb_def)
  from c have e: "widget_value (detect_checkbox initial_widgets) \<or>
      (\<exists>c. getrgb (color_picker_value initial_widgets) = Inr c)" by blast
  have g: "getpixel white_black_rgb 0 0 = (255, 255, 255, 255)"
    "getpixel white_black_rgb (Suc 0) 0 = (0, 0, 0, 255)"
    by (simp_all add: white_black_rgb_def getpixel_def to_rgba_def keyed_alpha_def)
  obtain st' out used where a: "add_transparency white_black_rgb initial_widgets = (st', Inr out)"
    and u: "getrgb (color_picker_value st') = Inr used"
    and p: "\<forall>y<height white_black_rgb. \<forall>x<width white_black_rgb. \<exists>r g b.
               getpixel white_black_rgb x y = (r, g, b, 255) \<and>
               getpixel out x y =
                 (r, g, b, if (unat r, unat g, unat b) = used then 0 else 255)"
    using add_transparency_no_alpha_channel[OF na nt valid_white_black_rgb w h e] by blast
  have "fst (add_transparency white_black_rgb initial_widgets) = initial_widgets"
    using add_transparency_plain[OF d c] by simp
  with a have "st' = initial_widgets" by simp
  with u c have used: "used = (255, 255, 255)" by simp
  have "\<exists>r g b. getpixel white_black_rgb 0 0 = (r, g, b, 255) \<and>
               getpixel out 0 0 =
                 (r, g, b, if (unat r, unat g, unat b) = used then 0 else 255)"
    and "\<exists>r g b. getpixel white_black_rgb 1 0 = (r, g, b, 255) \<and>
               getpixel out 1 0 =
                 (r, g, b, if (unat r, unat g, unat b) = used then 0 else 255)"
    using p[rule_format, of 0 0] p[rule_format, of 0 1]
    by (simp_all add: white_black_rgb_def)
  then have "getpixel out 0 0 = (255, 255, 255, 0) \<and> getpixel out 1 0 = (0, 0, 0, 255)"
    using g by (auto simp: used)
  with a na nt c w h g show ?thesis using valid_white_black_rgb by auto
qed

text \<open>
  C10, as the claim has it, fails on the code: an image in mode \<^verbatim>\<open>RGB\<close> has no
  alpha channel, but when it names black as its transparent colour the conversion gives
  its black pixel alpha 0, and the pixel comes out transparent although it does not
  match the used colour, white.
\<close>

theorem add_transparency_transparent_colour:
  "\<not> has_alpha_channel (pixels black_keyed_rgb) \<and>
   pixels (convert_RGBA black_keyed_rgb) =
     RGBA [[(255, 255, 255, 255), (0, 0, 0, 0)]] \<and>
   getrgb (color_picker_value initial_widgets) = Inr (255, 255, 255) \<and>
   add_transparency black_keyed_rgb initial_widgets =
     (initial_widgets,
      Inr \<lparr>width = 2, height = 1,
           pixels = RGBA [[(255, 255, 255, 0), (0, 0, 0, 0)]]\<rparr>)"
proof -
  have c: "getrgb (color_picker_value initial_widgets) = Inr (255, 255, 255)"
    by (simp add: initial_widgets_def getrgb_white)
  have d: "\<not> widget_value (detect_checkbox initial_widgets)"
    by (simp add: initial_widgets_def)
  have t: "to_rgba (pixels black_keyed_rgb) = [[(255, 255, 255, 255), (0, 0, 0, 0)]]"
    by (simp add: black_keyed_rgb_def to_rgba_def keyed_alpha_def)
  have "add_transparency black_keyed_rgb initial_widgets =
     (initial_widgets,
      Inr \<lparr>width = 2, height = 1,
           pixels = RGBA [[(255, 255, 255, 0), (0, 0, 0, 0)]]\<rparr>)"
    using add_transparency_plain[OF d c, of black_keyed_rgb]
    by (simp add: t exact_keyed_pixel_def) (simp add: black_keyed_rgb_def)
  moreover have "\<not> has_alpha_channel (pixels black_keyed_rgb)"
    by (simp add: black_keyed_rgb_def has_alpha_channel_def)
  moreover have "pixels (convert_RGBA black_keyed_rgb) =
     RGBA [[(255, 255, 255, 255), (0, 0, 0, 0)]]"
    by (simp add: convert_RGBA_def t)
  ultimately show ?thesis using c by blast
qed

subsection \<open>The bytes written are the nearest integers\<close>











text \<open>
  The conversion of line 141 by itself drops the fraction of the product: for a value
  between 0 and 1 the byte is the largest integer not above the product.
\<close>

lemma write_out_drops_fraction:
  assumes "0 \<le> x" "x \<le> 1"
  shows "real (unat (to_ubyte x)) \<le> fl (x * 255) \<and>
         fl (x * 255) < real (unat (to_ubyte x)) + 1"
proof -
  have "real_of_int (int (unat (to_ubyte x))) = real_of_int \<lfloor>fl (x * 255)\<rfloor>"
    using unat_to_ubyte[OF assms] by simp
  then have e: "real (unat (to_ubyte x)) = real_of_int \<lfloor>fl (x * 255)\<rfloor>" by simp
  have "real_of_int \<lfloor>fl (x * 255)\<rfloor> \<le> fl (x * 255)"
    and "fl (x * 255) < real_of_int \<lfloor>fl (x * 255)\<rfloor> + 1"
    by linarith+
  then show ?thesis unfolding e by blast
qed

text \<open>
  On the array of the fade, which the function does not reach (see C1), a product need
  not be an integer: for a pixel of value 43 against white the alpha is written as 211,
  the nearest integer to the product being 212.
\<close>

lemma fade_alpha_dark:
  "\<bar>fl (normalized 43 - normalized 255)\<bar> = 3744169101970765 / 4503599627370496"
proof -
  have n: "normalized 43 = 3037722101598923 / 18014398509481984"
    by (simp add: normalized_def fl_eval)
  show ?thesis unfolding n normalized_255 by (simp add: fl_eval)
qed

lemma fade_write_out:
  "fromarray (1, 1)
     (fade (np_array_RGBA dark_pixel) (normalized 255, normalized 255, normalized 255)) =
     \<lparr>width = 1, height = 1, pixels = RGBA [[(43, 43, 43, 211)]]\<rparr> \<and>
   nearest_int (fl (\<bar>fl (normalized 43 - normalized 255)\<bar> * 255)) = 212"
proof -
  have t: "to_ubyte \<bar>fl (normalized 43 - normalized 255)\<bar> = 211"
    unfolding fade_alpha_dark by (simp add: to_ubyte_def astype_int_def fl_eval)
  have n: "nearest_int (fl (\<bar>fl (normalized 43 - normalized 255)\<bar> * 255)) = 212"
    unfolding fade_alpha_dark by (simp add: nearest_int_def fl_eval)
  have "fromarray (1, 1)
     (fade (np_array_RGBA dark_pixel) (normalized 255, normalized 255, normalized 255)) =
     \<lparr>width = 1, height = 1, pixels = RGBA [[(43, 43, 43, 211)]]\<rparr>"
    using t
    by (simp add: fromarray_def fade_def np_array_RGBA_def convert_RGBA_def to_rgba_def
        dark_pixel_def to_ubyte_normalized)
  with n show ?thesis by blast
qed

end
